theory Spec2Isabelle
  imports Complex_Main "HOL-Library.Word" "HOL-Library.Multiset"
begin

unbundle bit_operations_syntax

section \<open>Conversation memory of dvkcli: the store of package memory\<close>

text \<open>
  The development follows \<^verbatim>\<open>package memory\<close> (the second half of
  \<^verbatim>\<open>src/internal/ollama/client.go\<close>): the codec of embedding vectors, the
  SQLite-backed store of conversations and messages, cosine similarity and the ranked
  search, and the \<^verbatim>\<open>searchMemory\<close> command of the display layer.
\<close>

subsection \<open>The codec: serializeFloat32 and deserializeFloat32\<close>

text \<open>
  A Go \<^verbatim>\<open>float32\<close> is modelled by its IEEE-754 bit pattern, a 32-bit word:
  \<^verbatim>\<open>math.Float32bits\<close> and \<^verbatim>\<open>math.Float32frombits\<close> reinterpret the same
  32 bits and change none of them, so a NaN keeps its payload and its sign.
\<close>

type_synonym float32 = "32 word"
type_synonym byte = "8 word"

definition Float32bits :: "float32 \<Rightarrow> 32 word" where
  "Float32bits v = v"

definition Float32frombits :: "32 word \<Rightarrow> float32" where
  "Float32frombits b = b"

text \<open>
  \<^verbatim>\<open>binary.LittleEndian.PutUint32(b, v)\<close> writes \<^verbatim>\<open>b[0] = byte(v)\<close>,
  \<^verbatim>\<open>b[1] = byte(v >> 8)\<close>, \<^verbatim>\<open>b[2] = byte(v >> 16)\<close>, \<^verbatim>\<open>b[3] = byte(v >> 24)\<close>.
  The slice \<^verbatim>\<open>buf[i*4:]\<close> shares the array of \<^verbatim>\<open>buf\<close>, so the write is an update
  of \<^verbatim>\<open>buf\<close> at offset \<^verbatim>\<open>i*4\<close>.
\<close>

definition PutUint32 :: "byte list \<Rightarrow> nat \<Rightarrow> 32 word \<Rightarrow> byte list" where
  "PutUint32 buf off v =
     buf[off := ucast v, off + 1 := ucast (drop_bit 8 v),
         off + 2 := ucast (drop_bit 16 v), off + 3 := ucast (drop_bit 24 v)]"

text \<open>
  \<^verbatim>\<open>binary.LittleEndian.Uint32(b)\<close> is
  \<^verbatim>\<open>uint32(b[0]) | uint32(b[1])<<8 | uint32(b[2])<<16 | uint32(b[3])<<24\<close>.
\<close>

definition Uint32 :: "byte list \<Rightarrow> 32 word" where
  "Uint32 b = ucast (b ! 0) OR push_bit 8 (ucast (b ! 1)) OR
              push_bit 16 (ucast (b ! 2)) OR push_bit 24 (ucast (b ! 3))"

text \<open>
  \<^verbatim>\<open>serializeFloat32\<close> allocates \<^verbatim>\<open>len(data)*4\<close> zero bytes and writes element
  \<^verbatim>\<open>i\<close> at offset \<^verbatim>\<open>i*4\<close>, for \<^verbatim>\<open>i\<close> from 0 upwards.
\<close>

definition serializeFloat32 :: "float32 list \<Rightarrow> byte list" where
  "serializeFloat32 data =
     fold (\<lambda>i buf. PutUint32 buf (i * 4) (Float32bits (data ! i)))
          [0..<length data] (replicate (length data * 4) 0)"

text \<open>
  \<^verbatim>\<open>deserializeFloat32\<close> allocates \<^verbatim>\<open>len(data)/4\<close> elements and reads element
  \<^verbatim>\<open>i\<close> from \<^verbatim>\<open>data[i*4:]\<close>. Every read stays in range, since
  \<^verbatim>\<open>i < len(data)/4\<close> gives \<^verbatim>\<open>i*4+3 < len(data)\<close>: the function never panics.
\<close>

definition deserializeFloat32 :: "byte list \<Rightarrow> float32 list" where
  "deserializeFloat32 data =
     map (\<lambda>i. Float32frombits (Uint32 (drop (i * 4) data))) [0..<length data div 4]"

text \<open>The four bytes of one element, as a list: an auxiliary notion of the proofs.\<close>

definition le_bytes :: "32 word \<Rightarrow> byte list" where
  "le_bytes v = [ucast v, ucast (drop_bit 8 v), ucast (drop_bit 16 v), ucast (drop_bit 24 v)]"

subsection \<open>Properties of the codec\<close>

lemma Uint32_le_bytes: "Uint32 (le_bytes v @ rest) = v"
  unfolding Uint32_def le_bytes_def
  apply simp
  apply (rule bit_word_eqI)
  apply (auto simp add: bit_simps)
  subgoal for n by (cases "n < 24") auto
  done

lemma length_le_bytes: "length (le_bytes v) = 4"
  by (simp add: le_bytes_def)

lemma length_concat_le_bytes: "length (concat (map le_bytes xs)) = 4 * length xs"
  by (induction xs) (simp_all add: length_le_bytes)

lemma PutUint32_append:
  "length xs = off \<Longrightarrow>
   PutUint32 (xs @ replicate (4 * Suc m) 0) off v = xs @ le_bytes v @ replicate (4 * m) 0"
proof -
  assume len: "length xs = off"
  have rep: "replicate (4 * Suc m) (0::byte) = 0 # 0 # 0 # 0 # replicate (4 * m) 0"
    by (simp add: numeral_eq_Suc)
  show ?thesis
    unfolding PutUint32_def rep le_bytes_def using len
    by (simp add: list_update_append)
qed

text \<open>After \<open>k\<close> rounds of the loop the first \<open>k\<close> elements are written, the rest is zero.\<close>

lemma serialize_prefix:
  "k \<le> length data \<Longrightarrow>
   fold (\<lambda>i buf. PutUint32 buf (i * 4) (Float32bits (data ! i))) [0..<k]
        (replicate (length data * 4) 0)
   = concat (map le_bytes (take k data)) @ replicate (4 * (length data - k)) 0"
proof (induction k)
  case 0
  then show ?case by (simp add: mult.commute)
next
  case (Suc k)
  then have k: "k < length data" by simp
  then obtain m where m: "length data - k = Suc m" "length data - Suc k = m"
    by (metis Suc_diff_Suc diff_Suc_eq_diff_pred)
  have tk: "take (Suc k) data = take k data @ [data ! k]"
    using k by (simp add: take_Suc_conv_app_nth)
  have len: "length (concat (map le_bytes (take k data))) = k * 4"
    using k by (simp add: length_concat_le_bytes)
  show ?case
    using Suc.IH k m PutUint32_append [OF len, of m "data ! k"]
    by (simp add: tk Float32bits_def)
qed

lemma serializeFloat32_concat: "serializeFloat32 data = concat (map le_bytes data)"
  using serialize_prefix [of "length data" data] by (simp add: serializeFloat32_def)

lemma length_serializeFloat32: "length (serializeFloat32 data) = 4 * length data"
  by (simp add: serializeFloat32_concat length_concat_le_bytes)

lemma drop_concat_le_bytes:
  "drop (i * 4) (concat (map le_bytes xs)) = concat (map le_bytes (drop i xs))"
proof (induction xs arbitrary: i)
  case Nil
  then show ?case by simp
next
  case (Cons x xs)
  show ?case
  proof (cases i)
    case 0
    then show ?thesis by simp
  next
    case (Suc j)
    then show ?thesis using Cons.IH [of j] by (simp add: length_le_bytes)
  qed
qed

lemma deserialize_concat: "deserializeFloat32 (concat (map le_bytes xs)) = xs"
proof (rule nth_equalityI)
  show "length (deserializeFloat32 (concat (map le_bytes xs))) = length xs"
    by (simp add: deserializeFloat32_def length_concat_le_bytes)
next
  fix i assume "i < length (deserializeFloat32 (concat (map le_bytes xs)))"
  then have i: "i < length xs"
    by (simp add: deserializeFloat32_def length_concat_le_bytes)
  then have "drop i xs = xs ! i # drop (Suc i) xs"
    by (simp add: Cons_nth_drop_Suc)
  then have "drop (i * 4) (concat (map le_bytes xs)) =
             le_bytes (xs ! i) @ concat (map le_bytes (drop (Suc i) xs))"
    by (simp add: drop_concat_le_bytes)
  then show "deserializeFloat32 (concat (map le_bytes xs)) ! i = xs ! i"
    using i by (simp add: deserializeFloat32_def length_concat_le_bytes
        Uint32_le_bytes Float32frombits_def)
qed

lemma deserialize_serialize: "deserializeFloat32 (serializeFloat32 v) = v"
  by (simp add: serializeFloat32_concat deserialize_concat)

lemma serializeFloat32_eq_Nil: "serializeFloat32 data = [] \<longleftrightarrow> data = []"
  using length_serializeFloat32 [of data] by (cases data) auto

section \<open>The store\<close>

subsection \<open>Go values: slices, instants, errors\<close>

text \<open>
  A Go slice is \<^verbatim>\<open>nil\<close> or a sequence: \<open>None\<close> is the \<^verbatim>\<open>nil\<close> slice and
  \<open>Some []\<close> an allocated slice of length zero. \<^verbatim>\<open>len\<close> is 0 on both. The
  distinction is kept for \<^verbatim>\<open>Message.Embedding\<close> and for the \<^verbatim>\<open>[]byte\<close> bound to
  the \<^verbatim>\<open>embedding\<close> column, where an absent vector and a vector of length zero are at
  stake; elsewhere a slice is a list.
\<close>

type_synonym 'a slice = "'a list option"

definition len :: "'a slice \<Rightarrow> nat" where
  "len s = (case s of None \<Rightarrow> 0 | Some xs \<Rightarrow> length xs)"

definition elems :: "'a slice \<Rightarrow> 'a list" where
  "elems s = (case s of None \<Rightarrow> [] | Some xs \<Rightarrow> xs)"

text \<open>
  A \<^verbatim>\<open>time.Time\<close> value is a point of the type \<open>time\<close>. \<^verbatim>\<open>time.Now()\<close> is an
  input of the operation that reads the clock (the argument \<open>now\<close>).
\<close>

type_synonym time = int

text \<open>
  Errors. The SQLite engine reports a violated constraint (\<open>Sqlite\<close>);
  \<^verbatim>\<open>fmt.Errorf("p: %w", err)\<close> wraps an error under a prefix (\<open>Errorf\<close>) and
  \<^verbatim>\<open>fmt.Errorf\<close> of a plain text makes a new one (\<open>New\<close>); \<open>Api\<close> is a failure of the
  model server, with its text. A runtime panic is the value \<open>Panic\<close>. \<open>Error\<close> is the
  method \<^verbatim>\<open>Error()\<close>, the text of an error. Failures of the storage medium itself (I/O
  errors, a row whose column cannot be scanned into the Go type) are outside the model:
  the tables below hold well-typed rows and every statement on them completes.
\<close>

datatype sqlite_error = UNIQUE_constraint_failed | FOREIGN_KEY_constraint_failed

datatype error =
    Sqlite sqlite_error
  | Api string
  | New string
  | Errorf string error
  | Panic string

fun Error :: "error \<Rightarrow> string" where
  "Error (Sqlite UNIQUE_constraint_failed) = ''UNIQUE constraint failed''"
| "Error (Sqlite FOREIGN_KEY_constraint_failed) = ''FOREIGN KEY constraint failed''"
| "Error (Api s) = s"
| "Error (New s) = s"
| "Error (Errorf p e) = p @ '': '' @ Error e"
| "Error (Panic s) = s"

subsection \<open>The structs of package memory\<close>

record Message =
  ID :: string
  ConversationID :: string
  Role :: string
  Content :: string
  Embedding :: "float32 slice"
  CreatedAt :: time

record Conversation =
  ID :: string
  Title :: string
  CreatedAt :: time
  UpdatedAt :: time
  Messages :: "Message list"

subsection \<open>The database\<close>

text \<open>
  The two tables of the schema in \<^verbatim>\<open>init\<close>, each a list of rows in insertion (rowid)
  order. The \<^verbatim>\<open>embedding\<close> column is a nullable BLOB: \<open>None\<close> is SQL NULL. The other
  columns always receive Go strings and instants from the code, so they are never NULL
  in a database this code has written.

  \<open>foreign_keys\<close> is the connection's \<^verbatim>\<open>PRAGMA foreign_keys\<close> setting. SQLite checks
  a \<^verbatim>\<open>FOREIGN KEY\<close> clause of the schema only on a connection where the pragma is on,
  and a new connection has it off. \<^verbatim>\<open>NewStore\<close> asks for the connection with the plain
  file path as data source name and \<^verbatim>\<open>init\<close> executes the schema only; no statement
  of the package turns the pragma on.
\<close>

record conversations_row =
  c_id :: string
  c_title :: string
  c_created_at :: time
  c_updated_at :: time

record messages_row =
  m_id :: string
  m_conversation_id :: string
  m_role :: string
  m_content :: string
  m_embedding :: "byte list option"
  m_created_at :: time

record DB =
  conversations :: "conversations_row list"
  messages :: "messages_row list"
  foreign_keys :: bool

text \<open>
  \<^verbatim>\<open>sql.Open(driverName, path)\<close> on a database file with the given table contents (both
  empty for a new file). \<open>drivers\<close> are the names under which the imported packages
  have registered a driver; a name that is not among them gives the error
  \<^verbatim>\<open>sql: unknown driver "..." (forgotten import?)\<close>.
\<close>

definition sql_Open ::
  "string list \<Rightarrow> string \<Rightarrow> conversations_row list \<Rightarrow> messages_row list \<Rightarrow> error + DB" where
  "sql_Open drivers driverName cs ms =
     (if driverName \<in> set drivers
      then Inr \<lparr>conversations = cs, messages = ms, foreign_keys = False\<rparr>
      else Inl (New (''sql: unknown driver '' @ [CHR 0x22] @ driverName @ [CHR 0x22] @
                     '' (forgotten import?)'')))"

text \<open>
  \<^verbatim>\<open>NewStore\<close> asks for the driver \<^verbatim>\<open>"sqlite3"\<close>; \<^verbatim>\<open>init\<close> then executes
  \<^verbatim>\<open>CREATE TABLE IF NOT EXISTS\<close>, which leaves existing tables as they are and makes
  the empty tables of a new file. The only driver package that the file imports is
  \<^verbatim>\<open>modernc.org/sqlite\<close>, which registers itself under the name \<^verbatim>\<open>"sqlite"\<close>
  (\<open>imported_drivers\<close>): with these imports \<^verbatim>\<open>NewStore\<close> returns the error of
  \<^verbatim>\<open>sql.Open\<close> (lemma \<open>NewStore_imported_drivers\<close>) and the program runs without a
  store. The methods of \<^verbatim>\<open>Store\<close> are therefore stated on an open connection, as
  \<^verbatim>\<open>sql.Open\<close> returns it for a registered driver name; \<open>empty_db\<close> is the open
  connection on a new file.
\<close>

definition imported_drivers :: "string list" where
  "imported_drivers = [''sqlite'']"

definition NewStore ::
  "string list \<Rightarrow> conversations_row list \<Rightarrow> messages_row list \<Rightarrow> error + DB" where
  "NewStore drivers cs ms =
     (case sql_Open drivers ''sqlite3'' cs ms of
        Inl err \<Rightarrow> Inl (Errorf ''failed to open database'' err)
      | Inr db \<Rightarrow> Inr db)"

definition empty_db :: DB where
  "empty_db = \<lparr>conversations = [], messages = [], foreign_keys = False\<rparr>"

text \<open>
  \<^verbatim>\<open>INSERT INTO conversations\<close>: the primary key \<^verbatim>\<open>id\<close> must be new.
  \<^verbatim>\<open>INSERT INTO messages\<close>: the primary key \<^verbatim>\<open>id\<close> must be new, and with the
  pragma on the referenced conversation must exist.
\<close>

definition insert_conversation :: "DB \<Rightarrow> conversations_row \<Rightarrow> sqlite_error + DB" where
  "insert_conversation db r =
     (if c_id r \<in> set (map c_id (conversations db)) then Inl UNIQUE_constraint_failed
      else Inr (db\<lparr>conversations := conversations db @ [r]\<rparr>))"

definition insert_message :: "DB \<Rightarrow> messages_row \<Rightarrow> sqlite_error + DB" where
  "insert_message db r =
     (if m_id r \<in> set (map m_id (messages db)) then Inl UNIQUE_constraint_failed
      else if foreign_keys db \<and> m_conversation_id r \<notin> set (map c_id (conversations db))
      then Inl FOREIGN_KEY_constraint_failed
      else Inr (db\<lparr>messages := messages db @ [r]\<rparr>))"

text \<open>\<^verbatim>\<open>UPDATE conversations SET updated_at = ? WHERE id = ?\<close>\<close>

definition update_conversation_updated_at :: "DB \<Rightarrow> time \<Rightarrow> string \<Rightarrow> DB" where
  "update_conversation_updated_at db t i =
     db\<lparr>conversations :=
          map (\<lambda>r. if c_id r = i then r\<lparr>c_updated_at := t\<rparr> else r) (conversations db)\<rparr>"

text \<open>
  \<^verbatim>\<open>ORDER BY updated_at DESC\<close> and \<^verbatim>\<open>ORDER BY created_at\<close>. A DATETIME column holds
  what the driver has written for the \<^verbatim>\<open>time.Time\<close> value (a text of the local wall
  clock and its offset), and the engine orders the rows by comparing what is stored, which
  need not be the order of the instants. The stored form is a parameter: \<open>stored t\<close>, of
  a linearly ordered type, ordered as the engine compares. Rows with equal keys stay in
  rowid order (SQL leaves their order open; the engine's sorter is deterministic, and
  both queries that order conversations go through this one definition).
  \<open>chronological\<close> is a stored form that orders as the instants do.
  \<^verbatim>\<open>LIMIT n\<close> with a negative \<^verbatim>\<open>n\<close> is no limit in SQLite.
\<close>

definition order_by_updated_at_desc ::
  "(time \<Rightarrow> 'k::linorder) \<Rightarrow> conversations_row list \<Rightarrow> conversations_row list" where
  "order_by_updated_at_desc stored rs = rev (sort_key (\<lambda>r. stored (c_updated_at r)) (rev rs))"

definition order_by_created_at ::
  "(time \<Rightarrow> 'k::linorder) \<Rightarrow> messages_row list \<Rightarrow> messages_row list" where
  "order_by_created_at stored rs = sort_key (\<lambda>r. stored (m_created_at r)) rs"

definition chronological :: "time \<Rightarrow> int" where
  "chronological t = t"

definition sql_limit :: "int \<Rightarrow> 'a list \<Rightarrow> 'a list" where
  "sql_limit n rs = (if n < 0 then rs else take (nat n) rs)"

subsection \<open>The operations of the store\<close>

text \<open>
  Each operation takes the database (an open connection) and, where it writes, returns
  the new one. Operations that only read (\<^verbatim>\<open>GetConversation\<close>, \<^verbatim>\<open>ListConversations\<close>,
  \<^verbatim>\<open>GetLastConversation\<close>, \<^verbatim>\<open>GetMessageCount\<close>, \<^verbatim>\<open>Search\<close>) return their result
  alone. The Go error results of \<^verbatim>\<open>GetConversation\<close>, \<^verbatim>\<open>ListConversations\<close>,
  \<^verbatim>\<open>GetLastConversation\<close> and \<^verbatim>\<open>GetMessageCount\<close> come from the storage medium and
  the driver only (a statement that cannot be executed, a row that cannot be scanned) and
  end the call: these definitions give the result of a call in which every statement and
  every scan succeeds. \<^verbatim>\<open>Search\<close> goes on after a row that fails to scan, so there
  the outcome of the scan is part of the model, as is its panic.
\<close>

definition CreateConversation ::
  "time \<Rightarrow> DB \<Rightarrow> string \<Rightarrow> string \<Rightarrow> (error + Conversation) \<times> DB" where
  "CreateConversation now db i title =
     (case insert_conversation db
             \<lparr>c_id = i, c_title = title, c_created_at = now, c_updated_at = now\<rparr> of
        Inl err \<Rightarrow> (Inl (Errorf ''failed to create conversation'' (Sqlite err)), db)
      | Inr db' \<Rightarrow>
          (Inr \<lparr>Conversation.ID = i, Title = title, Conversation.CreatedAt = now,
                UpdatedAt = now, Messages = []\<rparr>, db'))"

text \<open>
  \<^verbatim>\<open>rows.Scan\<close> of the columns \<^verbatim>\<open>id, conversation_id, role, content, created_at\<close>
  into a zero \<^verbatim>\<open>Message\<close>: the field \<^verbatim>\<open>Embedding\<close> keeps its zero value \<^verbatim>\<open>nil\<close>.
  Likewise for a conversation, whose \<^verbatim>\<open>Messages\<close> start as \<^verbatim>\<open>nil\<close>.
\<close>

definition scan_message :: "messages_row \<Rightarrow> Message" where
  "scan_message r =
     \<lparr>Message.ID = m_id r, ConversationID = m_conversation_id r, Role = m_role r,
      Content = m_content r, Embedding = None, Message.CreatedAt = m_created_at r\<rparr>"

definition scan_conversation :: "conversations_row \<Rightarrow> Conversation" where
  "scan_conversation r =
     \<lparr>Conversation.ID = c_id r, Title = c_title r, Conversation.CreatedAt = c_created_at r,
      UpdatedAt = c_updated_at r, Messages = []\<rparr>"

text \<open>
  \<^verbatim>\<open>GetConversation\<close>: \<^verbatim>\<open>QueryRowContext\<close> takes the first row of
  \<^verbatim>\<open>SELECT ... FROM conversations WHERE id = ?\<close> (\<^verbatim>\<open>sql.ErrNoRows\<close> gives
  \<^verbatim>\<open>nil, nil\<close>), then the loop appends the messages selected by
  \<^verbatim>\<open>WHERE conversation_id = ? ORDER BY created_at\<close>. The embedding column is not
  selected.
\<close>

definition GetConversation ::
  "(time \<Rightarrow> 'k::linorder) \<Rightarrow> DB \<Rightarrow> string \<Rightarrow> Conversation option" where
  "GetConversation stored db i =
     (case filter (\<lambda>r. c_id r = i) (conversations db) of
        [] \<Rightarrow> None
      | r # _ \<Rightarrow>
          Some (fold (\<lambda>row conv. conv\<lparr>Messages := Messages conv @ [scan_message row]\<rparr>)
                  (order_by_created_at stored (filter (\<lambda>m. m_conversation_id m = i) (messages db)))
                  (scan_conversation r)))"

definition ListConversations ::
  "(time \<Rightarrow> 'k::linorder) \<Rightarrow> DB \<Rightarrow> int \<Rightarrow> Conversation list" where
  "ListConversations stored db limit =
     fold (\<lambda>row convs. convs @ [scan_conversation row])
          (sql_limit limit (order_by_updated_at_desc stored (conversations db))) []"

text \<open>
  \<^verbatim>\<open>SaveMessage\<close>: \<^verbatim>\<open>embeddingBlob\<close> is declared \<^verbatim>\<open>nil\<close> and assigned only under
  \<^verbatim>\<open>len(msg.Embedding) > 0\<close>; a \<^verbatim>\<open>nil\<close> byte slice is bound as NULL. When the INSERT
  fails the function returns the wrapped error and the UPDATE is not executed.
\<close>

definition SaveMessage :: "time \<Rightarrow> DB \<Rightarrow> Message \<Rightarrow> error option \<times> DB" where
  "SaveMessage now db msg =
     (let embeddingBlob =
            (if len (Embedding msg) > 0 then Some (serializeFloat32 (elems (Embedding msg)))
             else None)
      in case insert_message db
                \<lparr>m_id = Message.ID msg, m_conversation_id = ConversationID msg,
                 m_role = Role msg, m_content = Content msg, m_embedding = embeddingBlob,
                 m_created_at = Message.CreatedAt msg\<rparr> of
           Inl err \<Rightarrow> (Some (Errorf ''failed to save message'' (Sqlite err)), db)
         | Inr db' \<Rightarrow> (None, update_conversation_updated_at db' now (ConversationID msg)))"

definition GetMessageCount :: "DB \<Rightarrow> nat" where
  "GetMessageCount db = length (messages db)"

text \<open>
  \<^verbatim>\<open>GetLastConversation\<close>: the first row of
  \<^verbatim>\<open>SELECT id FROM conversations ORDER BY updated_at DESC LIMIT 1\<close>, then
  \<^verbatim>\<open>GetConversation\<close> of that id.
\<close>

definition GetLastConversation :: "(time \<Rightarrow> 'k::linorder) \<Rightarrow> DB \<Rightarrow> Conversation option" where
  "GetLastConversation stored db =
     (case sql_limit 1 (map c_id (order_by_updated_at_desc stored (conversations db))) of
        [] \<Rightarrow> None
      | i # _ \<Rightarrow> GetConversation stored db i)"

text \<open>
  The invariant of a database written by this code: primary keys are unique, and a stored
  embedding that is not NULL has at least one byte. It holds for the empty database and
  every operation keeps it (lemmas \<open>store_wf_empty_db\<close>, \<open>store_wf_CreateConversation\<close>,
  \<open>store_wf_SaveMessage\<close>).
\<close>

definition store_wf :: "DB \<Rightarrow> bool" where
  "store_wf db =
     (distinct (map c_id (conversations db)) \<and> distinct (map m_id (messages db)) \<and>
      list_all (\<lambda>r. m_embedding r \<noteq> Some []) (messages db))"

section \<open>Similarity and search\<close>

subsection \<open>float64 arithmetic\<close>

text \<open>
  Go's \<^verbatim>\<open>float64\<close> operations are a parameter of the model: the type of
  float64 values with the constant of an integer literal, \<^verbatim>\<open>+\<close>, \<^verbatim>\<open>*\<close>, \<^verbatim>\<open>/\<close>,
  \<^verbatim>\<open>math.Sqrt\<close>, the comparisons \<^verbatim>\<open>==\<close> and \<^verbatim>\<open>>\<close>, the conversion
  \<^verbatim>\<open>float64(x)\<close> of a \<^verbatim>\<open>float32\<close>, and the rendering of \<^verbatim>\<open>%.0f\<close>. What a theorem
  needs of IEEE-754 arithmetic is stated as a hypothesis on these operations.
\<close>

record 'f float64_ops =
  f64_lit :: "int \<Rightarrow> 'f"
  f64_add :: "'f \<Rightarrow> 'f \<Rightarrow> 'f"
  f64_mul :: "'f \<Rightarrow> 'f \<Rightarrow> 'f"
  f64_div :: "'f \<Rightarrow> 'f \<Rightarrow> 'f"
  f64_sqrt :: "'f \<Rightarrow> 'f"
  f64_eq :: "'f \<Rightarrow> 'f \<Rightarrow> bool"
  f64_gt :: "'f \<Rightarrow> 'f \<Rightarrow> bool"
  float64 :: "float32 \<Rightarrow> 'f"
  f64_fmt0 :: "'f \<Rightarrow> string"

text \<open>The literal \<^verbatim>\<open>0\<close>, also the zero value of a declared \<^verbatim>\<open>float64\<close> variable.\<close>

definition f64_zero :: "'f float64_ops \<Rightarrow> 'f" where
  "f64_zero ops = f64_lit ops 0"

subsection \<open>cosineSimilarity\<close>

text \<open>
  The loop \<^verbatim>\<open>for i := range a\<close> with its three accumulators. It runs only when
  \<^verbatim>\<open>len(a) = len(b)\<close>, so \<^verbatim>\<open>b[i]\<close> is in range.
\<close>

definition cosine_loop ::
  "'f float64_ops \<Rightarrow> float32 list \<Rightarrow> float32 list \<Rightarrow> 'f \<times> 'f \<times> 'f" where
  "cosine_loop ops a b =
     fold (\<lambda>i (dotProduct, normA, normB).
             (f64_add ops dotProduct (f64_mul ops (float64 ops (a ! i)) (float64 ops (b ! i))),
              f64_add ops normA (f64_mul ops (float64 ops (a ! i)) (float64 ops (a ! i))),
              f64_add ops normB (f64_mul ops (float64 ops (b ! i)) (float64 ops (b ! i)))))
          [0..<length a] (f64_zero ops, f64_zero ops, f64_zero ops)"

definition cosineSimilarity :: "'f float64_ops \<Rightarrow> float32 list \<Rightarrow> float32 list \<Rightarrow> 'f" where
  "cosineSimilarity ops a b =
     (if length a \<noteq> length b then f64_zero ops
      else case cosine_loop ops a b of
        (dotProduct, normA, normB) \<Rightarrow>
          if f64_eq ops normA (f64_zero ops) \<or> f64_eq ops normB (f64_zero ops)
          then f64_zero ops
          else f64_div ops dotProduct (f64_mul ops (f64_sqrt ops normA) (f64_sqrt ops normB)))"

text \<open>
  The three sums on their own, as the specification names them: the dot product and the
  squared norm, every element converted to float64 before it is multiplied and every sum
  taken in float64, from the left.
\<close>

definition dot_product :: "'f float64_ops \<Rightarrow> float32 list \<Rightarrow> float32 list \<Rightarrow> 'f" where
  "dot_product ops a b =
     foldl (\<lambda>s (x, y). f64_add ops s (f64_mul ops (float64 ops x) (float64 ops y)))
           (f64_zero ops) (zip a b)"

definition norm_sq :: "'f float64_ops \<Rightarrow> float32 list \<Rightarrow> 'f" where
  "norm_sq ops a =
     foldl (\<lambda>s x. f64_add ops s (f64_mul ops (float64 ops x) (float64 ops x)))
           (f64_zero ops) a"

text \<open>The two float32 zeros: \<open>+0\<close> (all bits clear) and \<open>-0\<close> (sign bit only).\<close>

definition is_zero32 :: "float32 \<Rightarrow> bool" where
  "is_zero32 x = (x = 0 \<or> x = 0x80000000)"

subsection \<open>Search\<close>

record 'f SearchResult =
  Message :: Message
  Similarity :: 'f

text \<open>
  \<^verbatim>\<open>rows.Scan\<close> converts the columns of a row to the Go destinations, and the
  conversion is the driver's: it can fail on a row that \<^verbatim>\<open>SaveMessage\<close> has written (the
  text stored for \<^verbatim>\<open>created_at\<close> must parse back into a \<^verbatim>\<open>time.Time\<close>). Its outcome
  is a parameter of the search: \<open>scan_err row\<close> is the error of \<^verbatim>\<open>rows.Scan\<close> on the
  row, \<open>None\<close> when the scan succeeds. \<open>scan_succeeds\<close> is a driver that scans every
  row.
\<close>

definition scan_succeeds :: "messages_row \<Rightarrow> error option" where
  "scan_succeeds row = None"

text \<open>
  The scan loop over the rows of \<^verbatim>\<open>SELECT ... FROM messages WHERE embedding IS NOT NULL\<close>
  (a table scan, in rowid order): a row whose scan fails is skipped (\<^verbatim>\<open>continue\<close>), a row
  whose blob has length 0 adds nothing, any other row adds one result.
\<close>

definition scan_results ::
  "'f float64_ops \<Rightarrow> (messages_row \<Rightarrow> error option) \<Rightarrow> float32 list \<Rightarrow> messages_row list \<Rightarrow>
   'f SearchResult list" where
  "scan_results ops scan_err queryEmbedding rows =
     fold (\<lambda>row results.
             case scan_err row of
               Some err \<Rightarrow> results
             | None \<Rightarrow>
                 (case m_embedding row of
                    None \<Rightarrow> results
                  | Some embeddingBlob \<Rightarrow>
                      if length embeddingBlob > 0
                      then results @
                        [\<lparr>Message = (scan_message row)
                                      \<lparr>Embedding := Some (deserializeFloat32 embeddingBlob)\<rparr>,
                          Similarity = cosineSimilarity ops queryEmbedding
                                         (deserializeFloat32 embeddingBlob)\<rparr>]
                      else results))
          rows []"

text \<open>
  The two nested loops that sort \<^verbatim>\<open>results\<close>: the inner loop at \<open>(i, j)\<close> swaps
  \<^verbatim>\<open>results[i]\<close> and \<^verbatim>\<open>results[j]\<close> when \<^verbatim>\<open>results[j].Similarity > results[i].Similarity\<close>
  and goes on with \<open>j + 1\<close>; the outer loop runs \<open>i\<close> while \<^verbatim>\<open>i < len(results)-1\<close>.
\<close>

function sort_inner ::
  "'f float64_ops \<Rightarrow> nat \<Rightarrow> nat \<Rightarrow> 'f SearchResult list \<Rightarrow> 'f SearchResult list" where
  "sort_inner ops i j results =
     (if j < length results
      then sort_inner ops i (j + 1)
             (if f64_gt ops (Similarity (results ! j)) (Similarity (results ! i))
              then results[i := results ! j, j := results ! i]
              else results)
      else results)"
  by pat_completeness auto
termination
  by (relation "measure (\<lambda>(ops, i, j, results). length results - j)") auto

declare sort_inner.simps [simp del]

lemma length_sort_inner: "length (sort_inner ops i j results) = length results"
proof (induction ops i j results rule: sort_inner.induct)
  case (1 ops i j results)
  show ?case
  proof (cases "j < length results")
    case True
    then show ?thesis using "1.IH" by (subst sort_inner.simps) simp
  next
    case False
    then show ?thesis by (subst sort_inner.simps) simp
  qed
qed

function sort_outer ::
  "'f float64_ops \<Rightarrow> nat \<Rightarrow> 'f SearchResult list \<Rightarrow> 'f SearchResult list" where
  "sort_outer ops i results =
     (if i + 1 < length results
      then sort_outer ops (i + 1) (sort_inner ops i (i + 1) results)
      else results)"
  by pat_completeness auto
termination
  by (relation "measure (\<lambda>(ops, i, results). length results - i)")
     (auto simp: length_sort_inner)

declare sort_outer.simps [simp del]

text \<open>
  \<^verbatim>\<open>Search\<close>. With \<^verbatim>\<open>len(results) > limit\<close> the result is \<^verbatim>\<open>results[:limit]\<close>, which
  panics (slice bounds out of range) when \<^verbatim>\<open>limit\<close> is negative.
\<close>

definition Search ::
  "'f float64_ops \<Rightarrow> (messages_row \<Rightarrow> error option) \<Rightarrow> DB \<Rightarrow> float32 list \<Rightarrow> int \<Rightarrow>
   error + 'f SearchResult list" where
  "Search ops scan_err db queryEmbedding limit =
     (let rows = filter (\<lambda>r. m_embedding r \<noteq> None) (messages db);
          results = sort_outer ops 0 (scan_results ops scan_err queryEmbedding rows)
      in if int (length results) > limit
         then (if limit < 0 then Inl (Panic ''slice bounds out of range'')
               else Inr (take (nat limit) results))
         else Inr results)"

section \<open>The display layer: the search command\<close>

text \<open>
  \<^verbatim>\<open>Client.Embed\<close>: the request to the model server is the parameter \<open>api_Embed\<close>
  (an error, or the embeddings of the response, in float64); \<open>to_float32\<close> is the
  conversion \<^verbatim>\<open>float32(v)\<close>.
\<close>

definition Embed ::
  "('f \<Rightarrow> float32) \<Rightarrow> (string \<Rightarrow> error + 'f list list) \<Rightarrow> string \<Rightarrow> error + float32 list" where
  "Embed to_float32 api_Embed text =
     (case api_Embed text of
        Inl err \<Rightarrow> Inl (Errorf ''failed to generate embedding'' err)
      | Inr embeddings \<Rightarrow>
          if length embeddings = 0 then Inl (New ''no embeddings returned'')
          else Inr (map to_float32 (embeddings ! 0)))"

text \<open>
  \<^verbatim>\<open>truncate\<close>: \<^verbatim>\<open>s[:max-3]\<close> panics when \<^verbatim>\<open>max-3\<close> is negative (it is at most
  \<^verbatim>\<open>len(s)\<close> on this branch).
\<close>

definition truncate :: "string \<Rightarrow> int \<Rightarrow> error + string" where
  "truncate s mx =
     (if int (length s) \<le> mx then Inr s
      else if mx - 3 < 0 then Inl (Panic ''slice bounds out of range'')
      else Inr (take (nat (mx - 3)) s @ ''...''))"

text \<open>\<^verbatim>\<open>%d\<close> of a number that is not negative.\<close>

function itoa :: "nat \<Rightarrow> string" where
  "itoa n = (if n < 10 then [char_of (48 + n)] else itoa (n div 10) @ [char_of (48 + n mod 10)])"
  by pat_completeness auto
termination
  by (relation "measure id") auto

declare itoa.simps [simp del]

text \<open>
  The loop that writes one line per result into the \<^verbatim>\<open>strings.Builder\<close>:
  \<^verbatim>\<open>"%d. [%.0f%% match] %s\n"\<close> of \<^verbatim>\<open>i+1\<close>, \<^verbatim>\<open>r.Similarity*100\<close> and the
  truncated content.
\<close>

definition render_results :: "'f float64_ops \<Rightarrow> 'f SearchResult list \<Rightarrow> error + string" where
  "render_results ops results =
     fold (\<lambda>i sb.
             case sb of
               Inl err \<Rightarrow> Inl err
             | Inr s \<Rightarrow>
                 (case truncate (Content (Message (results ! i))) 80 of
                    Inl err \<Rightarrow> Inl err
                  | Inr t \<Rightarrow>
                      Inr (s @ itoa (i + 1) @ ''. ['' @
                           f64_fmt0 ops (f64_mul ops (Similarity (results ! i)) (f64_lit ops 100)) @
                           ''% match] '' @ t @ [CHR 0x0A])))
          [0..<length results]
          (Inr (''Found '' @ itoa (length results) @ '' relevant messages:'' @
                [CHR 0x0A, CHR 0x0A]))"

datatype commandResultMsg = commandResultMsg (content: string)

text \<open>
  The calls the closure of \<^verbatim>\<open>searchMemory\<close> makes, in order: to the embedding provider
  and to \<^verbatim>\<open>Store.Search\<close>.
\<close>

datatype call = Embed_called string | Search_called "float32 list" int

text \<open>
  \<^verbatim>\<open>searchMemory\<close>: the message the closure returns (or the panic that ends it), the
  calls it has made, and the store afterwards. \<^verbatim>\<open>m.store\<close> is \<^verbatim>\<open>nil\<close> (\<open>None\<close>)
  when memory is disabled. \<^verbatim>\<open>Search\<close> only reads, so the store is the same in every
  branch. With the limit 5 \<^verbatim>\<open>Search\<close> does not panic (lemma \<open>Search_returns\<close>), and
  its error result comes from the storage medium only: the branches on \<open>Inl\<close> are kept
  for the shape of the source.
\<close>

definition searchMemory ::
  "'f float64_ops \<Rightarrow> (messages_row \<Rightarrow> error option) \<Rightarrow> ('f \<Rightarrow> float32) \<Rightarrow>
   (string \<Rightarrow> error + 'f list list) \<Rightarrow> DB option \<Rightarrow> string \<Rightarrow>
   (error + commandResultMsg) \<times> call list \<times> DB option" where
  "searchMemory ops scan_err to_float32 api_Embed store query =
     (case store of
        None \<Rightarrow> (Inr (commandResultMsg ''Memory is not enabled.''), [], store)
      | Some db \<Rightarrow>
          (case Embed to_float32 api_Embed query of
             Inl err \<Rightarrow>
               (Inr (commandResultMsg (''Error generating embedding: '' @ Error err)),
                [Embed_called query], store)
           | Inr embedding \<Rightarrow>
               (case Search ops scan_err db embedding 5 of
                  Inl (Panic p) \<Rightarrow>
                    (Inl (Panic p), [Embed_called query, Search_called embedding 5], store)
                | Inl err \<Rightarrow>
                    (Inr (commandResultMsg (''Error searching: '' @ Error err)),
                     [Embed_called query, Search_called embedding 5], store)
                | Inr results \<Rightarrow>
                    (if length results = 0
                     then Inr (commandResultMsg ''No matching conversations found.'')
                     else map_sum id commandResultMsg (render_results ops results),
                     [Embed_called query, Search_called embedding 5], store))))"

section \<open>An instance of the arithmetic\<close>

text \<open>
  The exact arithmetic of the real numbers on the values of finite floats: where every
  intermediate result of a computation is a float64 value, IEEE-754 arithmetic gives the
  same results. It is used to run the definitions on concrete vectors.
  \<open>f32_value\<close> is the number a finite float32 bit pattern stands for (sign, 8 bits of
  exponent, 23 bits of fraction).
\<close>

definition f32_value :: "float32 \<Rightarrow> real" where
  "f32_value w =
     (let s = (if bit w 31 then - 1 else 1);
          e = unat (take_bit 8 (drop_bit 23 w));
          m = unat (take_bit 23 w)
      in if e = 0 then s * real m / 2 ^ 149
         else s * real ((2 ^ 23 + m) * 2 ^ e) / 2 ^ 150)"

text \<open>\<^verbatim>\<open>%.0f\<close>: the nearest integer, a tie going to the even one, after the sign.\<close>

definition fmt0 :: "real \<Rightarrow> string" where
  "fmt0 x =
     (let a = \<bar>x\<bar>; n = \<lfloor>a\<rfloor>;
          r = (if a - of_int n < 1 / 2 then n
               else if a - of_int n > 1 / 2 then n + 1
               else if even n then n else n + 1)
      in (if x < 0 then ''-'' else []) @ itoa (nat r))"

definition exact_ops :: "real float64_ops" where
  "exact_ops =
     \<lparr>f64_lit = real_of_int, f64_add = (+), f64_mul = (*), f64_div = (/), f64_sqrt = sqrt,
      f64_eq = (=), f64_gt = (>), float64 = f32_value, f64_fmt0 = fmt0\<rparr>"

section \<open>Properties of the sort\<close>

text \<open>
  What the sort needs of the comparison \<^verbatim>\<open>>\<close> on float64: it is irreflexive and
  transitive. The IEEE-754 comparison is (a NaN is not greater than anything and nothing
  is greater than a NaN).
\<close>

definition strict_order :: "('f \<Rightarrow> 'f \<Rightarrow> bool) \<Rightarrow> bool" where
  "strict_order gt = ((\<forall>x. \<not> gt x x) \<and> (\<forall>x y z. gt x y \<and> gt y z \<longrightarrow> gt x z))"

text \<open>
  A list of results is in descending order of similarity when no result has a strictly
  greater similarity than a result before it.
\<close>

definition descending :: "'f float64_ops \<Rightarrow> 'f SearchResult list \<Rightarrow> bool" where
  "descending ops rs =
     (\<forall>p q. p < q \<and> q < length rs \<longrightarrow>
        \<not> f64_gt ops (Similarity (rs ! q)) (Similarity (rs ! p)))"

text \<open>
  The invariants of the loops: the positions below \<open>i\<close> are final (\<open>prefix_done\<close>), and
  position \<open>i\<close> is not exceeded by the positions between \<open>i\<close> and \<open>j\<close> (\<open>head_max\<close>).
\<close>

definition prefix_done :: "'f float64_ops \<Rightarrow> nat \<Rightarrow> 'f SearchResult list \<Rightarrow> bool" where
  "prefix_done ops i rs =
     (\<forall>p q. p < i \<and> p < q \<and> q < length rs \<longrightarrow>
        \<not> f64_gt ops (Similarity (rs ! q)) (Similarity (rs ! p)))"

definition head_max :: "'f float64_ops \<Rightarrow> nat \<Rightarrow> nat \<Rightarrow> 'f SearchResult list \<Rightarrow> bool" where
  "head_max ops i j rs =
     (\<forall>k. i < k \<and> k < j \<longrightarrow> \<not> f64_gt ops (Similarity (rs ! k)) (Similarity (rs ! i)))"

lemma prefix_done_swap:
  assumes "prefix_done ops i rs" "i < j" "j < length rs"
  shows "prefix_done ops i (rs[i := rs ! j, j := rs ! i])"
  unfolding prefix_done_def
proof (intro allI impI)
  fix p q
  assume h: "p < i \<and> p < q \<and> q < length (rs[i := rs ! j, j := rs ! i])"
  let ?rs = "rs[i := rs ! j, j := rs ! i]"
  have p: "?rs ! p = rs ! p" using h assms by simp
  have "\<exists>q'. p < q' \<and> q' < length rs \<and> ?rs ! q = rs ! q'"
  proof (cases "q = j")
    case True
    then show ?thesis using h assms by (intro exI [of _ i]) simp
  next
    case False
    show ?thesis
    proof (cases "q = i")
      case True
      then show ?thesis using h assms False by (intro exI [of _ j]) simp
    next
      case False
      then show ?thesis using h assms \<open>q \<noteq> j\<close> by (intro exI [of _ q]) simp
    qed
  qed
  then obtain q' where "p < q'" "q' < length rs" "?rs ! q = rs ! q'" by blast
  then show "\<not> f64_gt ops (Similarity (?rs ! q)) (Similarity (?rs ! p))"
    using assms(1) h p unfolding prefix_done_def by simp
qed

lemma head_max_step_swap:
  assumes so: "strict_order (f64_gt ops)"
    and hm: "head_max ops i j rs" and ij: "i < j" and j: "j < length rs"
    and gt: "f64_gt ops (Similarity (rs ! j)) (Similarity (rs ! i))"
  shows "head_max ops i (Suc j) (rs[i := rs ! j, j := rs ! i])"
  unfolding head_max_def
proof (intro allI impI)
  fix k assume k: "i < k \<and> k < Suc j"
  let ?rs = "rs[i := rs ! j, j := rs ! i]"
  have i: "?rs ! i = rs ! j" using ij j by simp
  show "\<not> f64_gt ops (Similarity (?rs ! k)) (Similarity (?rs ! i))"
  proof (cases "k = j")
    case True
    then have "?rs ! k = rs ! i" using j by simp
    moreover have "\<not> f64_gt ops (Similarity (rs ! i)) (Similarity (rs ! j))"
      using so gt unfolding strict_order_def by blast
    ultimately show ?thesis using i by simp
  next
    case False
    then have kj: "k < j" using k by simp
    then have "?rs ! k = rs ! k" using k by simp
    moreover have "\<not> f64_gt ops (Similarity (rs ! k)) (Similarity (rs ! i))"
      using hm k kj unfolding head_max_def by simp
    then have "\<not> f64_gt ops (Similarity (rs ! k)) (Similarity (rs ! j))"
      using so gt unfolding strict_order_def by blast
    ultimately show ?thesis using i by simp
  qed
qed

lemma head_max_step_keep:
  assumes "head_max ops i j rs"
    and "\<not> f64_gt ops (Similarity (rs ! j)) (Similarity (rs ! i))"
  shows "head_max ops i (Suc j) rs"
  unfolding head_max_def
proof (intro allI impI)
  fix k assume k: "i < k \<and> k < Suc j"
  show "\<not> f64_gt ops (Similarity (rs ! k)) (Similarity (rs ! i))"
  proof (cases "k = j")
    case True
    then show ?thesis using assms(2) by simp
  next
    case False
    then show ?thesis using assms(1) k unfolding head_max_def by simp
  qed
qed

lemma sort_inner_inv:
  "strict_order (f64_gt ops) \<Longrightarrow> i < j \<Longrightarrow> j \<le> length rs \<Longrightarrow>
   prefix_done ops i rs \<Longrightarrow> head_max ops i j rs \<Longrightarrow>
   prefix_done ops i (sort_inner ops i j rs) \<and>
   head_max ops i (length rs) (sort_inner ops i j rs)"
proof (induction ops i j rs rule: sort_inner.induct)
  case (1 ops i j results)
  show ?case
  proof (cases "j < length results")
    case False
    then have "j = length results" using "1.prems" by simp
    then show ?thesis using "1.prems" False by (subst (1 2) sort_inner.simps) simp
  next
    case True
    let ?next = "if f64_gt ops (Similarity (results ! j)) (Similarity (results ! i))
                 then results[i := results ! j, j := results ! i] else results"
    have len: "length ?next = length results" by simp
    have pd: "prefix_done ops i ?next"
      using "1.prems" True by (simp add: prefix_done_swap)
    have "head_max ops i (Suc j) ?next"
      using "1.prems" True by (simp add: head_max_step_swap head_max_step_keep)
    then have hm: "head_max ops i (j + 1) ?next" by simp
    have "prefix_done ops i (sort_inner ops i (j + 1) ?next) \<and>
          head_max ops i (length ?next) (sort_inner ops i (j + 1) ?next)"
      using "1.IH" [OF True "1.prems"(1) _ _ pd hm] "1.prems" True len by simp
    then show ?thesis using True len by (subst (1 2) sort_inner.simps) simp
  qed
qed

lemma prefix_done_Suc:
  assumes "prefix_done ops i rs" "head_max ops i (length rs) rs"
  shows "prefix_done ops (i + 1) rs"
  unfolding prefix_done_def
proof (intro allI impI)
  fix p q assume h: "p < i + 1 \<and> p < q \<and> q < length rs"
  show "\<not> f64_gt ops (Similarity (rs ! q)) (Similarity (rs ! p))"
  proof (cases "p = i")
    case True
    then show ?thesis using assms(2) h unfolding head_max_def by simp
  next
    case False
    then show ?thesis using assms(1) h unfolding prefix_done_def by simp
  qed
qed

lemma sort_outer_descending:
  "strict_order (f64_gt ops) \<Longrightarrow> prefix_done ops i rs \<Longrightarrow>
   descending ops (sort_outer ops i rs)"
proof (induction ops i rs rule: sort_outer.induct)
  case (1 ops i results)
  show ?case
  proof (cases "i + 1 < length results")
    case False
    have "descending ops results"
      unfolding descending_def
    proof (intro allI impI)
      fix p q assume "p < q \<and> q < length results"
      then have "p < i \<and> p < q \<and> q < length results" using False by simp
      then show "\<not> f64_gt ops (Similarity (results ! q)) (Similarity (results ! p))"
        using "1.prems"(2) unfolding prefix_done_def by blast
    qed
    then show ?thesis using False by (subst sort_outer.simps) simp
  next
    case True
    let ?next = "sort_inner ops i (i + 1) results"
    have hm0: "head_max ops i (i + 1) results" by (auto simp: head_max_def)
    have "prefix_done ops i ?next \<and> head_max ops i (length results) ?next"
      using sort_inner_inv [OF "1.prems"(1) _ _ "1.prems"(2) hm0] True by simp
    then have "prefix_done ops (i + 1) ?next"
      using prefix_done_Suc [of ops i ?next] by (simp add: length_sort_inner)
    then have "descending ops (sort_outer ops (i + 1) ?next)"
      using "1.IH" [OF True "1.prems"(1)] by simp
    then show ?thesis using True by (subst sort_outer.simps) simp
  qed
qed

lemma mset_sort_inner: "mset (sort_inner ops i j rs) = mset rs" if "i < length rs"
  using that
proof (induction ops i j rs rule: sort_inner.induct)
  case (1 ops i j results)
  show ?case
  proof (cases "j < length results")
    case False
    then show ?thesis by (subst sort_inner.simps) simp
  next
    case True
    let ?next = "if f64_gt ops (Similarity (results ! j)) (Similarity (results ! i))
                 then results[i := results ! j, j := results ! i] else results"
    have "mset ?next = mset results"
      using True "1.prems" by (simp add: mset_swap)
    moreover have "mset (sort_inner ops i (j + 1) ?next) = mset ?next"
      using "1.IH" [OF True] "1.prems" by simp
    ultimately show ?thesis using True by (subst sort_inner.simps) simp
  qed
qed

lemma mset_sort_outer: "mset (sort_outer ops i rs) = mset rs"
proof (induction ops i rs rule: sort_outer.induct)
  case (1 ops i results)
  show ?case
  proof (cases "i + 1 < length results")
    case False
    then show ?thesis by (subst sort_outer.simps) simp
  next
    case True
    then show ?thesis
      using "1.IH" [OF True] by (subst sort_outer.simps) (simp add: mset_sort_inner)
  qed
qed

lemma length_sort_outer: "length (sort_outer ops i rs) = length rs"
  using mset_sort_outer [of ops i rs] by (metis size_mset)

lemma descending_take: "descending ops rs \<Longrightarrow> descending ops (take n rs)"
  unfolding descending_def by simp

text \<open>No swap happens on a list that is already in descending order.\<close>

lemma sort_inner_id:
  "head_max ops i (length rs) rs \<Longrightarrow> i < j \<Longrightarrow> sort_inner ops i j rs = rs"
proof (induction ops i j rs rule: sort_inner.induct)
  case (1 ops i j results)
  show ?case
  proof (cases "j < length results")
    case False
    then show ?thesis by (subst sort_inner.simps) simp
  next
    case True
    then have no: "\<not> f64_gt ops (Similarity (results ! j)) (Similarity (results ! i))"
      using "1.prems" unfolding head_max_def by simp
    then have "sort_inner ops i (j + 1) results = results"
      using "1.IH" [OF True] "1.prems" by simp
    then show ?thesis using True no by (subst sort_inner.simps) simp
  qed
qed

lemma sort_outer_id: "descending ops rs \<Longrightarrow> sort_outer ops i rs = rs"
proof (induction ops i rs rule: sort_outer.induct)
  case (1 ops i results)
  show ?case
  proof (cases "i + 1 < length results")
    case False
    then show ?thesis by (subst sort_outer.simps) simp
  next
    case True
    have "head_max ops i (length results) results"
      using "1.prems" unfolding head_max_def descending_def by simp
    then have "sort_inner ops i (i + 1) results = results"
      by (simp add: sort_inner_id)
    then show ?thesis using True "1.IH" [OF True] "1.prems" by (subst sort_outer.simps) simp
  qed
qed

section \<open>Properties of the store\<close>

text \<open>
  The loops of \<^verbatim>\<open>GetConversation\<close> and \<^verbatim>\<open>ListConversations\<close> append one scanned row
  after the other.
\<close>

lemma Messages_fold_scan:
  "Messages (fold (\<lambda>row conv. conv\<lparr>Messages := Messages conv @ [scan_message row]\<rparr>) rows c)
   = Messages c @ map scan_message rows"
  by (induction rows arbitrary: c) simp_all

lemma fold_scan_fields:
  "Conversation.ID (fold (\<lambda>row conv. conv\<lparr>Messages := Messages conv @ [scan_message row]\<rparr>) rows c)
     = Conversation.ID c"
  by (induction rows arbitrary: c) simp_all

lemma GetConversation_Some:
  "GetConversation stored db i = Some conv \<Longrightarrow>
   Messages conv =
     map scan_message (order_by_created_at stored (filter (\<lambda>m. m_conversation_id m = i) (messages db)))"
  by (auto simp: GetConversation_def Messages_fold_scan scan_conversation_def
           split: list.splits)

lemma GetLastConversation_Some:
  "GetLastConversation stored db = Some conv \<Longrightarrow> \<exists>i. GetConversation stored db i = Some conv"
  by (auto simp: GetLastConversation_def split: list.splits)

lemma fold_snoc_map: "fold (\<lambda>x acc. acc @ [f x]) xs ys = ys @ map f xs"
  by (induction xs arbitrary: ys) simp_all

lemma ListConversations_map:
  "ListConversations stored db limit =
     map scan_conversation (sql_limit limit (order_by_updated_at_desc stored (conversations db)))"
  by (simp add: ListConversations_def fold_snoc_map)

lemma GetConversation_member:
  "r \<in> set (conversations db) \<Longrightarrow> GetConversation stored db (c_id r) \<noteq> None"
proof -
  assume "r \<in> set (conversations db)"
  then have "r \<in> set (filter (\<lambda>x. c_id x = c_id r) (conversations db))" by simp
  then have "filter (\<lambda>x. c_id x = c_id r) (conversations db) \<noteq> []"
    by (metis empty_iff empty_set)
  then show ?thesis
    by (auto simp: GetConversation_def split: list.splits)
qed

text \<open>
  The row that \<^verbatim>\<open>SaveMessage\<close> binds to its INSERT statement, and what a call that
  returns \<^verbatim>\<open>nil\<close> has done to the database.
\<close>

definition message_row :: "Message \<Rightarrow> messages_row" where
  "message_row msg =
     \<lparr>m_id = Message.ID msg, m_conversation_id = ConversationID msg, m_role = Role msg,
      m_content = Content msg,
      m_embedding = (if len (Embedding msg) > 0
                     then Some (serializeFloat32 (elems (Embedding msg))) else None),
      m_created_at = Message.CreatedAt msg\<rparr>"

lemma SaveMessage_success:
  "SaveMessage now db msg = (None, db') \<Longrightarrow>
   messages db' = messages db @ [message_row msg] \<and>
   conversations db' =
     map (\<lambda>r. if c_id r = ConversationID msg then r\<lparr>c_updated_at := now\<rparr> else r)
         (conversations db) \<and>
   foreign_keys db' = foreign_keys db"
  by (auto simp: SaveMessage_def Let_def insert_message_def message_row_def
      update_conversation_updated_at_def split: if_splits)

lemma SaveMessage_failure:
  "SaveMessage now db msg = (Some err, db') \<Longrightarrow> db' = db"
  by (auto simp: SaveMessage_def Let_def split: sum.splits)

lemma deserializeFloat32_Nil: "deserializeFloat32 [] = []"
  by (simp add: deserializeFloat32_def)

text \<open>
  The foreign key of the schema decides the outcome of \<^verbatim>\<open>SaveMessage\<close> for a
  message of an unknown conversation only on a connection with the pragma on.
\<close>

lemma SaveMessage_foreign_keys_on:
  "foreign_keys db \<Longrightarrow> ConversationID msg \<notin> set (map c_id (conversations db)) \<Longrightarrow>
   Message.ID msg \<notin> set (map m_id (messages db)) \<Longrightarrow>
   SaveMessage now db msg =
     (Some (Errorf ''failed to save message'' (Sqlite FOREIGN_KEY_constraint_failed)), db)"
  by (simp add: SaveMessage_def Let_def insert_message_def)

lemma SaveMessage_foreign_keys_off:
  "\<not> foreign_keys db \<Longrightarrow> Message.ID msg \<notin> set (map m_id (messages db)) \<Longrightarrow>
   fst (SaveMessage now db msg) = None \<and>
   Message.ID msg \<in> set (map m_id (messages (snd (SaveMessage now db msg))))"
  by (simp add: SaveMessage_def Let_def insert_message_def update_conversation_updated_at_def)

text \<open>
  The invariant holds for a new database and every writing operation keeps it.
\<close>

lemma NewStore_imported_drivers:
  "NewStore imported_drivers cs ms =
     Inl (Errorf ''failed to open database''
            (New (''sql: unknown driver '' @ [CHR 0x22] @ ''sqlite3'' @ [CHR 0x22] @
                  '' (forgotten import?)'')))"
  by (simp add: NewStore_def sql_Open_def imported_drivers_def)

lemma NewStore_registered:
  "''sqlite3'' \<in> set drivers \<Longrightarrow>
   NewStore drivers cs ms = Inr \<lparr>conversations = cs, messages = ms, foreign_keys = False\<rparr>"
  by (simp add: NewStore_def sql_Open_def)

lemma sql_Open_foreign_keys_off:
  "sql_Open drivers driverName cs ms = Inr db \<Longrightarrow> \<not> foreign_keys db"
  by (auto simp: sql_Open_def split: if_splits)

lemma sql_Open_empty_db: "sql_Open [driverName] driverName [] [] = Inr empty_db"
  by (simp add: sql_Open_def empty_db_def)

lemma store_wf_empty_db: "store_wf empty_db"
  by (simp add: store_wf_def empty_db_def)

lemma store_wf_CreateConversation:
  "store_wf db \<Longrightarrow> store_wf (snd (CreateConversation now db i title))"
  by (auto simp: store_wf_def CreateConversation_def insert_conversation_def)

lemma store_wf_SaveMessage:
  "store_wf db \<Longrightarrow> store_wf (snd (SaveMessage now db msg))"
proof -
  assume wf: "store_wf db"
  have "distinct (map c_id (map (\<lambda>r. if c_id r = i then r\<lparr>c_updated_at := t\<rparr> else r) cs))
        = distinct (map c_id cs)" for i t and cs :: "conversations_row list"
    by (rule arg_cong [where f = distinct]) (induction cs; simp)
  then show ?thesis
    using wf
    by (auto simp: store_wf_def SaveMessage_def Let_def insert_message_def
        update_conversation_updated_at_def serializeFloat32_eq_Nil len_def elems_def
        split: option.splits)
qed

section \<open>Properties of the similarity and of the search\<close>

text \<open>
  What the degenerate cases of \<^verbatim>\<open>cosineSimilarity\<close> need of float64 arithmetic.
  \<open>zero_laws\<close>: \<^verbatim>\<open>0 == 0\<close>, \<^verbatim>\<open>0 + 0\<close> is \<^verbatim>\<open>0\<close>, and the square of a zero
  (of either sign) is \<^verbatim>\<open>0\<close>. \<open>nonzero_laws\<close>, for a set \<open>pos\<close> of float64 values:
  \<^verbatim>\<open>0 + x*x\<close> is in \<open>pos\<close> for every \<^verbatim>\<open>float32\<close> \<open>x\<close> other than a zero, adding a
  square to a member of \<open>pos\<close> gives a member of \<open>pos\<close>, and no member of \<open>pos\<close>
  compares equal to \<^verbatim>\<open>0\<close>. In IEEE-754 arithmetic both hold, with the positive values,
  \<open>+\<infinity>\<close> and the NaNs as \<open>pos\<close>: the square of a float32 is exact in float64 and
  cannot underflow to zero.
\<close>

definition zero_laws :: "'f float64_ops \<Rightarrow> bool" where
  "zero_laws ops =
     (f64_eq ops (f64_zero ops) (f64_zero ops) \<and>
      f64_add ops (f64_zero ops) (f64_zero ops) = f64_zero ops \<and>
      (\<forall>x. is_zero32 x \<longrightarrow> f64_mul ops (float64 ops x) (float64 ops x) = f64_zero ops))"

definition nonzero_laws :: "'f float64_ops \<Rightarrow> ('f \<Rightarrow> bool) \<Rightarrow> bool" where
  "nonzero_laws ops pos =
     ((\<forall>x. \<not> is_zero32 x \<longrightarrow>
           pos (f64_add ops (f64_zero ops) (f64_mul ops (float64 ops x) (float64 ops x)))) \<and>
      (\<forall>s x. pos s \<longrightarrow> pos (f64_add ops s (f64_mul ops (float64 ops x) (float64 ops x)))) \<and>
      (\<forall>s. pos s \<longrightarrow> \<not> f64_eq ops s (f64_zero ops)))"

lemma cosine_loop_prefix:
  "k \<le> length a \<Longrightarrow> length a = length b \<Longrightarrow>
   fold (\<lambda>i (dotProduct, normA, normB).
             (f64_add ops dotProduct (f64_mul ops (float64 ops (a ! i)) (float64 ops (b ! i))),
              f64_add ops normA (f64_mul ops (float64 ops (a ! i)) (float64 ops (a ! i))),
              f64_add ops normB (f64_mul ops (float64 ops (b ! i)) (float64 ops (b ! i)))))
          [0..<k] (f64_zero ops, f64_zero ops, f64_zero ops)
   = (dot_product ops (take k a) (take k b), norm_sq ops (take k a), norm_sq ops (take k b))"
proof (induction k)
  case 0
  then show ?case by (simp add: dot_product_def norm_sq_def)
next
  case (Suc k)
  then have k: "k < length a" "k < length b" by simp_all
  have ta: "take (Suc k) a = take k a @ [a ! k]" and tb: "take (Suc k) b = take k b @ [b ! k]"
    using k by (simp_all add: take_Suc_conv_app_nth)
  have lk: "length (take k a) = length (take k b)" using Suc.prems by simp
  show ?case
    using Suc.IH Suc.prems k lk
    by (simp add: ta tb dot_product_def norm_sq_def)
qed

lemma cosine_loop_sums:
  "length a = length b \<Longrightarrow>
   cosine_loop ops a b = (dot_product ops a b, norm_sq ops a, norm_sq ops b)"
  using cosine_loop_prefix [of "length a" a b ops] by (simp add: cosine_loop_def)

lemma norm_sq_zeros:
  "zero_laws ops \<Longrightarrow> list_all is_zero32 a \<Longrightarrow> norm_sq ops a = f64_zero ops"
proof (induction a rule: rev_induct)
  case Nil
  then show ?case by (simp add: norm_sq_def)
next
  case (snoc x xs)
  then show ?case by (simp add: norm_sq_def zero_laws_def)
qed

lemma norm_sq_pos:
  assumes nz: "nonzero_laws ops pos" and z: "zero_laws ops"
  shows "\<not> list_all is_zero32 a \<Longrightarrow> pos (norm_sq ops a)"
proof (induction a rule: rev_induct)
  case Nil
  then show ?case by simp
next
  case (snoc x xs)
  have step: "norm_sq ops (xs @ [x]) =
      f64_add ops (norm_sq ops xs) (f64_mul ops (float64 ops x) (float64 ops x))"
    by (simp add: norm_sq_def)
  show ?case
  proof (cases "list_all is_zero32 xs")
    case True
    then have "norm_sq ops xs = f64_zero ops" using z by (rule norm_sq_zeros [rotated])
    moreover have "\<not> is_zero32 x" using snoc.prems True by simp
    ultimately show ?thesis using nz step unfolding nonzero_laws_def by simp
  next
    case False
    then have "pos (norm_sq ops xs)" by (rule snoc.IH)
    then show ?thesis using nz step unfolding nonzero_laws_def by simp
  qed
qed

text \<open>
  A message row has a stored embedding when its \<^verbatim>\<open>embedding\<close> column is not NULL; it
  is searchable when, besides, \<^verbatim>\<open>rows.Scan\<close> succeeds on it. \<open>candidate\<close> is the search
  result the scan loop builds from such a row.
\<close>

definition embedded :: "messages_row \<Rightarrow> bool" where
  "embedded row = (m_embedding row \<noteq> None)"

definition searchable :: "(messages_row \<Rightarrow> error option) \<Rightarrow> messages_row \<Rightarrow> bool" where
  "searchable scan_err row = (embedded row \<and> scan_err row = None)"

definition candidate :: "'f float64_ops \<Rightarrow> float32 list \<Rightarrow> messages_row \<Rightarrow> 'f SearchResult" where
  "candidate ops queryEmbedding row =
     \<lparr>Message = (scan_message row)
                  \<lparr>Embedding := Some (deserializeFloat32 (elems (m_embedding row)))\<rparr>,
      Similarity = cosineSimilarity ops queryEmbedding
                     (deserializeFloat32 (elems (m_embedding row)))\<rparr>"

lemma scan_results_acc:
  "fold (\<lambda>row results.
             case scan_err row of
               Some err \<Rightarrow> results
             | None \<Rightarrow>
                 (case m_embedding row of
                    None \<Rightarrow> results
                  | Some embeddingBlob \<Rightarrow>
                      if length embeddingBlob > 0
                      then results @
                        [\<lparr>Message = (scan_message row)
                                      \<lparr>Embedding := Some (deserializeFloat32 embeddingBlob)\<rparr>,
                          Similarity = cosineSimilarity ops q
                                         (deserializeFloat32 embeddingBlob)\<rparr>]
                      else results))
          rows acc
   = acc @ map (candidate ops q)
             (filter (\<lambda>r. scan_err r = None \<and> m_embedding r \<noteq> None \<and> m_embedding r \<noteq> Some [])
                rows)"
proof (induction rows arbitrary: acc)
  case Nil
  then show ?case by simp
next
  case (Cons row rows)
  show ?case
  proof (cases "scan_err row")
    case (Some err)
    then show ?thesis using Cons.IH by simp
  next
    case None
    note scanned = this
    show ?thesis
    proof (cases "m_embedding row")
      case None
      then show ?thesis using Cons.IH scanned by simp
    next
      case (Some blob)
      then show ?thesis
        using Cons.IH scanned by (cases blob) (simp_all add: candidate_def elems_def)
    qed
  qed
qed

lemma scan_results_candidates:
  "store_wf db \<Longrightarrow>
   scan_results ops scan_err q (filter (\<lambda>r. m_embedding r \<noteq> None) (messages db))
   = map (candidate ops q) (filter (searchable scan_err) (messages db))"
proof -
  assume "store_wf db"
  then have "\<forall>r \<in> set (messages db). m_embedding r \<noteq> Some []"
    by (simp add: store_wf_def list_all_iff)
  then have "filter (\<lambda>r. scan_err r = None \<and> m_embedding r \<noteq> None \<and> m_embedding r \<noteq> Some [])
               (filter (\<lambda>r. m_embedding r \<noteq> None) (messages db))
             = filter (searchable scan_err) (messages db)"
    by (auto simp: searchable_def embedded_def intro: filter_cong)
  then show ?thesis
    unfolding scan_results_def scan_results_acc by simp
qed

lemma Search_nonneg:
  "0 \<le> k \<Longrightarrow>
   Search ops scan_err db q k =
     Inr (take (nat k) (sort_outer ops 0
            (scan_results ops scan_err q
               (filter (\<lambda>r. m_embedding r \<noteq> None) (messages db)))))"
  by (auto simp: Search_def Let_def)

lemma Search_negative_limit:
  "k < 0 \<Longrightarrow> Search ops scan_err db q k = Inl (Panic ''slice bounds out of range'')"
  by (simp add: Search_def Let_def)

lemma Search_returns: "0 \<le> k \<Longrightarrow> \<exists>rs. Search ops scan_err db q k = Inr rs"
  by (simp add: Search_nonneg)

lemma unembedded_id_excluded:
  assumes "distinct (map m_id rows)" "row \<in> set rows" "\<not> embedded row"
  shows "m_id row \<notin> m_id ` set (filter (searchable scan_err) rows)"
proof
  assume "m_id row \<in> m_id ` set (filter (searchable scan_err) rows)"
  then obtain r where r: "r \<in> set rows" "embedded r" "m_id r = m_id row"
    by (auto simp: searchable_def)
  have "inj_on m_id (set rows)" using assms(1) by (simp add: distinct_map)
  then have "r = row" using r assms(2) by (auto dest: inj_onD)
  then show False using r assms(3) by simp
qed

lemma searchable_scan_succeeds: "searchable scan_succeeds = embedded"
  by (auto simp: searchable_def scan_succeeds_def)

lemma candidate_id: "Message.ID (Message (candidate ops q row)) = m_id row"
  by (simp add: candidate_def scan_message_def)

lemma descending_all_equal:
  assumes "\<forall>r \<in> set rs. Similarity r = c" "\<not> f64_gt ops c c"
  shows "descending ops rs"
  unfolding descending_def
proof (intro allI impI)
  fix p q assume "p < q \<and> q < length rs"
  then have "Similarity (rs ! p) = c" "Similarity (rs ! q) = c"
    using assms(1) by simp_all
  then show "\<not> f64_gt ops (Similarity (rs ! q)) (Similarity (rs ! p))"
    using assms(2) by simp
qed

text \<open>
  The embedding provider fails when the request fails or the response holds no
  embedding.
\<close>

lemma Embed_fails_iff:
  "(\<exists>err. Embed to_float32 api_Embed text = Inl err) \<longleftrightarrow>
   (\<exists>err. api_Embed text = Inl err) \<or> api_Embed text = Inr []"
  by (auto simp: Embed_def split: sum.splits)

section \<open>The exact arithmetic satisfies the laws\<close>

lemma f32_value_one: "f32_value 0x3F800000 = 1"
  by (simp add: f32_value_def)

lemma f32_value_zero: "is_zero32 x \<Longrightarrow> f32_value x = 0"
  by (auto simp: is_zero32_def f32_value_def)

lemma zero_bits:
  assumes "take_bit 23 (x :: 32 word) = 0" "take_bit 8 (drop_bit 23 x) = 0"
  shows "is_zero32 x"
proof -
  have lo: "\<not> bit x n" if "n < 23" for n
  proof -
    have "bit (take_bit 23 x) n = bit x n" using that by (simp add: bit_take_bit_iff)
    then show ?thesis using assms(1) by simp
  qed
  have hi: "\<not> bit x n" if "23 \<le> n" "n < 31" for n
  proof -
    have "bit (take_bit 8 (drop_bit 23 x)) (n - 23) = bit x n"
      using that by (auto simp add: bit_take_bit_iff bit_drop_bit_eq)
    then show ?thesis using assms(2) by simp
  qed
  have low: "\<not> bit x n" if "n < 31" for n
    using lo [of n] hi [of n] that by (cases "n < 23") simp_all
  show ?thesis
  proof (cases "bit x 31")
    case False
    have "x = 0"
    proof (rule bit_word_eqI)
      fix n assume "n < LENGTH(32)"
      then show "bit x n = bit (0 :: 32 word) n"
        using low [of n] False by (cases "n = 31") simp_all
    qed
    then show ?thesis by (simp add: is_zero32_def)
  next
    case True
    have "x = 0x80000000"
    proof (rule bit_word_eqI)
      fix n assume n: "n < LENGTH(32)"
      have "bit (0x80000000 :: 32 word) n \<longleftrightarrow> n = 31"
        using n bit_push_bit_iff [of 31 "1 :: 32 word" n]
        by (auto simp: push_bit_eq_mult bit_1_iff)
      then show "bit x n = bit (0x80000000 :: 32 word) n"
        using low [of n] True n by (cases "n = 31") simp_all
    qed
    then show ?thesis by (simp add: is_zero32_def)
  qed
qed

lemma f32_value_nonzero: "\<not> is_zero32 x \<Longrightarrow> f32_value x \<noteq> 0"
proof
  assume nz: "\<not> is_zero32 x" and v: "f32_value x = 0"
  have e: "unat (take_bit 8 (drop_bit 23 x)) = 0"
  proof (rule ccontr)
    assume ne: "unat (take_bit 8 (drop_bit 23 x)) \<noteq> 0"
    define k where "k = (2 ^ 23 + unat (take_bit 23 x)) * 2 ^ unat (take_bit 8 (drop_bit 23 x))"
    have "0 < k" by (simp add: k_def)
    then have "real k \<noteq> 0" by simp
    moreover have "f32_value x = (if bit x 31 then - 1 else 1) * real k / 2 ^ 150"
      using ne unfolding f32_value_def Let_def k_def by simp
    ultimately have "f32_value x \<noteq> 0" by (auto split: if_splits)
    then show False using v by simp
  qed
  define m where "m = unat (take_bit 23 x)"
  have "f32_value x = (if bit x 31 then - 1 else 1) * real m / 2 ^ 149"
    using e unfolding f32_value_def Let_def m_def by simp
  then have "real m = 0" using v by (auto split: if_splits)
  then have "m = 0" by simp
  then have "unat (take_bit 23 x) = 0" unfolding m_def .
  then have "take_bit 23 x = 0" "take_bit 8 (drop_bit 23 x) = 0"
    using e by (simp_all add: unat_eq_0)
  then show False using nz zero_bits by blast
qed

lemma zero_laws_exact: "zero_laws exact_ops"
  by (simp add: zero_laws_def exact_ops_def f64_zero_def f32_value_zero)

lemma f32_value_square_pos: "\<not> is_zero32 x \<Longrightarrow> 0 < f32_value x * f32_value x"
  using f32_value_nonzero [of x] by (auto simp add: zero_less_mult_iff neq_iff)

lemma nonzero_laws_exact: "nonzero_laws exact_ops (\<lambda>s. 0 < s)"
  by (auto simp: nonzero_laws_def exact_ops_def f64_zero_def f32_value_square_pos
      intro: add_pos_nonneg)

lemma strict_order_exact: "strict_order (f64_gt exact_ops)"
  by (auto simp: strict_order_def exact_ops_def)

lemma cos_same: "cosineSimilarity exact_ops [0x3F800000, 0] [0x3F800000, 0] = 1"
  by (simp add: cosineSimilarity_def cosine_loop_def exact_ops_def f64_zero_def
      f32_value_one f32_value_zero is_zero32_def upt_rec)

lemma cos_orth: "cosineSimilarity exact_ops [0x3F800000, 0] [0, 0x3F800000] = 0"
  by (simp add: cosineSimilarity_def cosine_loop_def exact_ops_def f64_zero_def
      f32_value_one f32_value_zero is_zero32_def upt_rec)

section \<open>Example stores\<close>

text \<open>
  \<open>0x3F800000\<close> is the float32 \<open>1.0\<close>. \<open>demo_db\<close> is what the code builds from a new
  database by creating conversation \<open>c1\<close> at time 1 and saving \<open>hello_msg\<close> at time 3.
\<close>

definition hello_msg :: Message where
  "hello_msg =
     \<lparr>Message.ID = ''m1'', ConversationID = ''c1'', Role = ''user'', Content = ''hello'',
      Embedding = Some [0x3F800000, 0], Message.CreatedAt = 2\<rparr>"

definition one_conv_db :: DB where
  "one_conv_db =
     \<lparr>conversations =
        [\<lparr>c_id = ''c1'', c_title = ''greeting'', c_created_at = 1, c_updated_at = 1\<rparr>],
      messages = [], foreign_keys = False\<rparr>"

definition demo_db :: DB where
  "demo_db =
     \<lparr>conversations =
        [\<lparr>c_id = ''c1'', c_title = ''greeting'', c_created_at = 1, c_updated_at = 3\<rparr>],
      messages =
        [\<lparr>m_id = ''m1'', m_conversation_id = ''c1'', m_role = ''user'', m_content = ''hello'',
          m_embedding = Some (serializeFloat32 [0x3F800000, 0]), m_created_at = 2\<rparr>],
      foreign_keys = False\<rparr>"

lemma demo_db_built:
  "SaveMessage 3 (snd (CreateConversation 1 empty_db ''c1'' ''greeting'')) hello_msg
   = (None, demo_db)"
  by (simp add: demo_db_def hello_msg_def SaveMessage_def CreateConversation_def empty_db_def
      insert_conversation_def insert_message_def
      update_conversation_updated_at_def len_def elems_def)

definition demo_conv :: Conversation where
  "demo_conv =
     \<lparr>Conversation.ID = ''c1'', Title = ''greeting'', Conversation.CreatedAt = 1, UpdatedAt = 3,
      Messages = [hello_msg\<lparr>Embedding := None\<rparr>]\<rparr>"

lemma GetConversation_demo: "GetConversation chronological demo_db ''c1'' = Some demo_conv"
  by (simp add: GetConversation_def demo_db_def demo_conv_def hello_msg_def
      order_by_created_at_def scan_message_def scan_conversation_def)

lemma GetLastConversation_demo: "GetLastConversation chronological demo_db = Some demo_conv"
  by (simp add: GetLastConversation_def GetConversation_def demo_db_def demo_conv_def hello_msg_def
      order_by_created_at_def order_by_updated_at_desc_def sql_limit_def
      scan_message_def scan_conversation_def)

definition two_conv_db :: DB where
  "two_conv_db =
     \<lparr>conversations =
        [\<lparr>c_id = ''c1'', c_title = ''older'', c_created_at = 1, c_updated_at = 2\<rparr>,
         \<lparr>c_id = ''c2'', c_title = ''newer'', c_created_at = 3, c_updated_at = 5\<rparr>],
      messages =
        [\<lparr>m_id = ''m1'', m_conversation_id = ''c1'', m_role = ''user'', m_content = ''one'',
          m_embedding = None, m_created_at = 2\<rparr>,
         \<lparr>m_id = ''m2'', m_conversation_id = ''c2'', m_role = ''user'', m_content = ''two'',
          m_embedding = None, m_created_at = 5\<rparr>],
      foreign_keys = False\<rparr>"

definition third_msg :: Message where
  "third_msg =
     \<lparr>Message.ID = ''m3'', ConversationID = ''c1'', Role = ''assistant'', Content = ''three'',
      Embedding = None, Message.CreatedAt = 8\<rparr>"

definition orphan_msg :: Message where
  "orphan_msg =
     \<lparr>Message.ID = ''m1'', ConversationID = ''missing'', Role = ''user'', Content = ''hi'',
      Embedding = None, Message.CreatedAt = 2\<rparr>"

text \<open>
  \<open>recall_db\<close>: the messages "hello" with embedding \<open>[1, 0]\<close>, "hi" without one and
  "world" with embedding \<open>[0, 1]\<close>. \<open>tie_db\<close>: three messages with embeddings
  \<open>[0, 1]\<close>, \<open>[0, 1]\<close> and \<open>[1, 0]\<close>; \<open>tie2_db\<close>: the first two of them.
\<close>

definition recall_db :: DB where
  "recall_db =
     \<lparr>conversations =
        [\<lparr>c_id = ''c1'', c_title = ''greeting'', c_created_at = 1, c_updated_at = 6\<rparr>],
      messages =
        [\<lparr>m_id = ''m1'', m_conversation_id = ''c1'', m_role = ''user'', m_content = ''hello'',
          m_embedding = Some (serializeFloat32 [0x3F800000, 0]), m_created_at = 2\<rparr>,
         \<lparr>m_id = ''m2'', m_conversation_id = ''c1'', m_role = ''assistant'', m_content = ''hi'',
          m_embedding = None, m_created_at = 3\<rparr>,
         \<lparr>m_id = ''m3'', m_conversation_id = ''c1'', m_role = ''user'', m_content = ''world'',
          m_embedding = Some (serializeFloat32 [0, 0x3F800000]), m_created_at = 5\<rparr>],
      foreign_keys = False\<rparr>"

lemma store_wf_recall_db: "store_wf recall_db"
  by (simp add: store_wf_def recall_db_def serializeFloat32_eq_Nil)

definition hello_result :: "real SearchResult" where
  "hello_result =
     \<lparr>Message = \<lparr>Message.ID = ''m1'', ConversationID = ''c1'', Role = ''user'',
                  Content = ''hello'', Embedding = Some [0x3F800000, 0], Message.CreatedAt = 2\<rparr>,
      Similarity = 1\<rparr>"

lemma Search_recall_db:
  "Search exact_ops scan_succeeds recall_db [0x3F800000, 0] 1 = Inr [hello_result]"
  apply (simp add: Search_def recall_db_def scan_results_def scan_succeeds_def
      deserialize_serialize scan_message_def cos_same cos_orth serializeFloat32_eq_Nil
      hello_result_def)
  apply (simp add: sort_outer.simps sort_inner.simps exact_ops_def)
  done

text \<open>A driver whose \<^verbatim>\<open>rows.Scan\<close> fails on the row of message \<open>m1\<close>.\<close>

definition scan_fails_m1 :: "messages_row \<Rightarrow> error option" where
  "scan_fails_m1 row =
     (if m_id row = ''m1'' then Some (New ''sql: Scan error on column index 5'') else None)"

definition world_result :: "real SearchResult" where
  "world_result =
     \<lparr>Message = \<lparr>Message.ID = ''m3'', ConversationID = ''c1'', Role = ''user'',
                  Content = ''world'', Embedding = Some [0, 0x3F800000], Message.CreatedAt = 5\<rparr>,
      Similarity = 0\<rparr>"

lemma Search_recall_db_scan_fails:
  "Search exact_ops scan_fails_m1 recall_db [0x3F800000, 0] 5 = Inr [world_result]"
  apply (simp add: Search_def recall_db_def scan_results_def scan_fails_m1_def
      deserialize_serialize scan_message_def cos_same cos_orth serializeFloat32_eq_Nil
      world_result_def)
  apply (simp add: sort_outer.simps sort_inner.simps exact_ops_def)
  done

definition tie_db :: DB where
  "tie_db =
     \<lparr>conversations =
        [\<lparr>c_id = ''c1'', c_title = ''ties'', c_created_at = 1, c_updated_at = 4\<rparr>],
      messages =
        [\<lparr>m_id = ''a'', m_conversation_id = ''c1'', m_role = ''user'', m_content = ''first'',
          m_embedding = Some (serializeFloat32 [0, 0x3F800000]), m_created_at = 2\<rparr>,
         \<lparr>m_id = ''b'', m_conversation_id = ''c1'', m_role = ''user'', m_content = ''second'',
          m_embedding = Some (serializeFloat32 [0, 0x3F800000]), m_created_at = 3\<rparr>,
         \<lparr>m_id = ''c'', m_conversation_id = ''c1'', m_role = ''user'', m_content = ''third'',
          m_embedding = Some (serializeFloat32 [0x3F800000, 0]), m_created_at = 4\<rparr>],
      foreign_keys = False\<rparr>"

text \<open>\<open>tie_db\<close> is what three calls of \<^verbatim>\<open>SaveMessage\<close> build, at times 2, 3 and 4.\<close>

definition tie_msg :: "string \<Rightarrow> string \<Rightarrow> float32 list \<Rightarrow> time \<Rightarrow> Message" where
  "tie_msg i c v t =
     \<lparr>Message.ID = i, ConversationID = ''c1'', Role = ''user'', Content = c,
      Embedding = Some v, Message.CreatedAt = t\<rparr>"

lemma tie_db_built:
  "snd (SaveMessage 4
     (snd (SaveMessage 3
        (snd (SaveMessage 2 (snd (CreateConversation 1 empty_db ''c1'' ''ties''))
                (tie_msg ''a'' ''first'' [0, 0x3F800000] 2)))
        (tie_msg ''b'' ''second'' [0, 0x3F800000] 3)))
     (tie_msg ''c'' ''third'' [0x3F800000, 0] 4))
   = tie_db"
  by (simp add: tie_db_def tie_msg_def SaveMessage_def CreateConversation_def empty_db_def
      insert_conversation_def insert_message_def
      update_conversation_updated_at_def len_def elems_def)

definition tie2_db :: DB where
  "tie2_db = tie_db\<lparr>messages := take 2 (messages tie_db)\<rparr>"

lemma store_wf_tie2_db: "store_wf tie2_db"
  by (simp add: store_wf_def tie2_db_def tie_db_def serializeFloat32_eq_Nil)

lemma candidates_tie2:
  "map (\<lambda>r. (Message.ID (Message r), Similarity r))
     (map (candidate exact_ops [0x3F800000, 0]) (filter (searchable scan_succeeds) (messages tie2_db)))
   = [(''a'', 0), (''b'', 0)]"
  by (simp add: tie2_db_def tie_db_def searchable_scan_succeeds embedded_def candidate_def
      elems_def deserialize_serialize scan_message_def cos_orth)

lemma descending_tie2:
  "descending exact_ops
     (map (candidate exact_ops [0x3F800000, 0]) (filter (searchable scan_succeeds) (messages tie2_db)))"
proof (rule descending_all_equal [where c = 0])
  have "map Similarity
     (map (candidate exact_ops [0x3F800000, 0]) (filter (searchable scan_succeeds) (messages tie2_db))) = [0, 0]"
    by (simp add: tie2_db_def tie_db_def searchable_scan_succeeds embedded_def candidate_def
      elems_def deserialize_serialize cos_orth)
  then have "set (map Similarity
     (map (candidate exact_ops [0x3F800000, 0]) (filter (searchable scan_succeeds) (messages tie2_db)))) = {0}"
    by simp
  then show "\<forall>r \<in> set (map (candidate exact_ops [0x3F800000, 0])
                 (filter (searchable scan_succeeds) (messages tie2_db))). Similarity r = 0"
    by auto
next
  show "\<not> f64_gt exact_ops 0 0" by (simp add: exact_ops_def)
qed

definition server_down :: "string \<Rightarrow> error + real list list" where
  "server_down text = Inl (Api ''connection refused'')"

section \<open>The claims\<close>

subsection \<open>C1: Search returns the top results in descending order\<close>

text \<open>
  Claim C1 says that for every store with exactly \<open>n\<close> messages with a stored embedding,
  every query vector and every limit \<open>k\<close>, \<^verbatim>\<open>Search\<close> returns exactly \<open>min k n\<close> results
  in descending order of similarity, without the messages that have no stored embedding.
  With the limit \<open>-1\<close> on \<open>recall_db\<close>, which has two messages with an embedding,
  \<^verbatim>\<open>Search\<close> returns no list of results: \<^verbatim>\<open>len(results) > limit\<close> holds and
  \<^verbatim>\<open>results[:limit]\<close> panics.
\<close>

theorem Search_limit_minus_one_panics:
  "map embedded (messages recall_db) = [True, False, True] \<and>
   Search exact_ops scan_succeeds recall_db [0x3F800000, 0] (- 1) =
     Inl (Panic ''slice bounds out of range'')"
  by (simp add: Search_def Let_def recall_db_def embedded_def)

text \<open>
  Claim C1, amended. For every store in a state this code produces (\<open>store_wf\<close>: unique
  identities, no stored embedding of length zero) and every query vector: with a limit
  \<open>k\<close> that is negative \<^verbatim>\<open>Search\<close> panics; with a limit \<open>k\<close> that is not negative it
  returns exactly \<open>min k n\<close> results, where \<open>n\<close> is the number of messages with a stored
  embedding whose row \<^verbatim>\<open>rows.Scan\<close> reads without error (a row that fails to scan is
  skipped). The results are the first \<open>k\<close> of an arrangement of the candidates of these
  \<open>n\<close> messages in which no candidate has a strictly greater similarity than one before
  it, and no message without a stored embedding is among them. The comparison of float64
  values is assumed irreflexive and transitive, as the IEEE-754 comparison is; a NaN
  similarity is not greater than any other and no other is greater than it, so it can
  stand at any place.
\<close>

theorem Search_ranked:
  assumes so: "strict_order (f64_gt ops)" and wf: "store_wf db"
  shows "(k < 0 \<longrightarrow> Search ops scan_err db q k = Inl (Panic ''slice bounds out of range'')) \<and>
         (0 \<le> k \<longrightarrow>
           (\<exists>rs ranked.
              Search ops scan_err db q k = Inr rs \<and>
              length rs = min (nat k) (length (filter (searchable scan_err) (messages db))) \<and>
              descending ops rs \<and>
              rs = take (nat k) ranked \<and> descending ops ranked \<and>
              mset ranked =
                mset (map (candidate ops q) (filter (searchable scan_err) (messages db))) \<and>
              (\<forall>row \<in> set (messages db).
                 \<not> embedded row \<longrightarrow>
                 m_id row \<notin> set (map (\<lambda>r. Message.ID (Message r)) rs))))"
proof (intro conjI impI)
  assume "k < 0"
  then show "Search ops scan_err db q k = Inl (Panic ''slice bounds out of range'')"
    by (rule Search_negative_limit)
next
  assume k: "0 \<le> k"
  let ?cands = "map (candidate ops q) (filter (searchable scan_err) (messages db))"
  let ?ranked = "sort_outer ops 0 ?cands"
  let ?rs = "take (nat k) ?ranked"
  have s: "Search ops scan_err db q k = Inr ?rs"
    by (subst Search_nonneg [OF k], subst scan_results_candidates [OF wf]) (rule refl)
  have d: "descending ops ?ranked"
    by (rule sort_outer_descending [OF so]) (simp add: prefix_done_def)
  have m: "mset ?ranked = mset ?cands" by (rule mset_sort_outer)
  have l: "length ?rs = min (nat k) (length (filter (searchable scan_err) (messages db)))"
    by (simp add: length_sort_outer min.commute)
  have ex: "m_id row \<notin> set (map (\<lambda>r. Message.ID (Message r)) ?rs)"
    if "row \<in> set (messages db)" "\<not> embedded row" for row
  proof -
    have "set ?rs \<subseteq> set ?ranked" by (rule set_take_subset)
    also have "set ?ranked = set ?cands" using m by (rule mset_eq_setD)
    finally have "set (map (\<lambda>r. Message.ID (Message r)) ?rs)
        \<subseteq> (\<lambda>r. Message.ID (Message r)) ` set ?cands" by auto
    also have "\<dots> = m_id ` set (filter (searchable scan_err) (messages db))"
      by (auto simp: candidate_id image_iff)
    finally show ?thesis
      using unembedded_id_excluded [of "messages db" row scan_err] wf that
      by (auto simp: store_wf_def)
  qed
  show "\<exists>rs ranked.
              Search ops scan_err db q k = Inr rs \<and>
              length rs = min (nat k) (length (filter (searchable scan_err) (messages db))) \<and>
              descending ops rs \<and>
              rs = take (nat k) ranked \<and> descending ops ranked \<and>
              mset ranked =
                mset (map (candidate ops q) (filter (searchable scan_err) (messages db))) \<and>
              (\<forall>row \<in> set (messages db).
                 \<not> embedded row \<longrightarrow>
                 m_id row \<notin> set (map (\<lambda>r. Message.ID (Message r)) rs))"
    using s l d m descending_take [OF d, of "nat k"] ex by blast
qed

text \<open>
  The theorem at \<open>recall_db\<close> and the query \<open>[1, 0]\<close>. With a driver that scans every
  row and limit 1 the one result is "hello" with similarity 1: "world" is cut off and
  "hi", which has no embedding, is not scored. With a driver that fails to scan the row
  of "hello" and limit 5 the one result is "world".
\<close>

theorem Search_ranked_witness:
  "strict_order (f64_gt exact_ops) \<and> store_wf recall_db \<and>
   map embedded (messages recall_db) = [True, False, True] \<and>
   map (searchable scan_succeeds) (messages recall_db) = [True, False, True] \<and>
   Search exact_ops scan_succeeds recall_db [0x3F800000, 0] 1 = Inr [hello_result] \<and>
   length [hello_result] =
     min (nat 1) (length (filter (searchable scan_succeeds) (messages recall_db))) \<and>
   descending exact_ops [hello_result] \<and>
   ''m2'' \<notin> set (map (\<lambda>r. Message.ID (Message r)) [hello_result]) \<and>
   map (searchable scan_fails_m1) (messages recall_db) = [False, False, True] \<and>
   Search exact_ops scan_fails_m1 recall_db [0x3F800000, 0] 5 = Inr [world_result] \<and>
   length [world_result] =
     min (nat 5) (length (filter (searchable scan_fails_m1) (messages recall_db)))"
proof -
  note t = Search_ranked [OF strict_order_exact store_wf_recall_db]
  obtain rs ranked where r:
    "Search exact_ops scan_succeeds recall_db [0x3F800000, 0] 1 = Inr rs"
    "length rs = min (nat 1) (length (filter (searchable scan_succeeds) (messages recall_db)))"
    "descending exact_ops rs"
    "\<forall>row \<in> set (messages recall_db).
        \<not> embedded row \<longrightarrow> m_id row \<notin> set (map (\<lambda>r. Message.ID (Message r)) rs)"
    using t [of 1 scan_succeeds "[0x3F800000, 0]"] by auto
  have rs: "rs = [hello_result]" using r(1) Search_recall_db by simp
  have e: "map embedded (messages recall_db) = [True, False, True]"
    by (simp add: recall_db_def embedded_def)
  have e1: "map (searchable scan_succeeds) (messages recall_db) = [True, False, True]"
    using e by (simp add: searchable_scan_succeeds)
  have m2: "''m2'' \<notin> set (map (\<lambda>r. Message.ID (Message r)) rs)"
    using r(4) by (simp add: recall_db_def embedded_def)
  obtain rs' where r':
    "Search exact_ops scan_fails_m1 recall_db [0x3F800000, 0] 5 = Inr rs'"
    "length rs' = min (nat 5) (length (filter (searchable scan_fails_m1) (messages recall_db)))"
    using t [of 5 scan_fails_m1 "[0x3F800000, 0]"] by auto
  have rs': "rs' = [world_result]" using r'(1) Search_recall_db_scan_fails by simp
  have e2: "map (searchable scan_fails_m1) (messages recall_db) = [False, False, True]"
    by (simp add: recall_db_def searchable_def embedded_def scan_fails_m1_def)
  show ?thesis
    using r(2,3) rs e e1 m2 r'(2) rs' e2 strict_order_exact store_wf_recall_db
      Search_recall_db Search_recall_db_scan_fails
    by simp
qed

subsection \<open>C2: the codec round trip\<close>

text \<open>
  Claim C2. For every finite sequence \<open>v\<close> of 32-bit floats, each given by its bit
  pattern (so NaN payloads, infinities, subnormals and signed zeros are all covered, and
  so is the empty sequence), decoding the encoding of \<open>v\<close> gives back \<open>v\<close> bit for bit;
  and the encoding of the empty sequence is the byte sequence of length zero.
\<close>

theorem codec_roundtrip:
  "deserializeFloat32 (serializeFloat32 v) = v \<and> serializeFloat32 [] = []"
  by (simp add: serializeFloat32_concat deserialize_concat)

subsection \<open>C3: a message of an unknown conversation\<close>

text \<open>
  Claim C3 says that \<^verbatim>\<open>SaveMessage\<close> of a message whose conversation does not exist
  fails with a foreign key violation and stores nothing. On an open connection to a new
  database file, as \<^verbatim>\<open>sql.Open\<close> returns it for a driver name that is registered, the
  call returns \<^verbatim>\<open>nil\<close> and the message is in the table: the schema declares the
  foreign key, and nothing enables its enforcement on the connection.
\<close>

theorem SaveMessage_orphan_persisted:
  "sql_Open [''sqlite3''] ''sqlite3'' [] [] = Inr empty_db \<and>
   GetConversation chronological empty_db ''missing'' = None \<and>
   SaveMessage 3 empty_db orphan_msg =
     (None,
      \<lparr>conversations = [],
       messages = [\<lparr>m_id = ''m1'', m_conversation_id = ''missing'', m_role = ''user'',
                    m_content = ''hi'', m_embedding = None, m_created_at = 2\<rparr>],
       foreign_keys = False\<rparr>)"
  by (simp add: sql_Open_def GetConversation_def SaveMessage_def empty_db_def orphan_msg_def
      insert_message_def update_conversation_updated_at_def len_def)

subsection \<open>C4: the cases of cosineSimilarity\<close>

text \<open>
  Claim C4. \<^verbatim>\<open>cosineSimilarity a b\<close> is \<^verbatim>\<open>0\<close> when the lengths differ, and \<^verbatim>\<open>0\<close>
  when either vector consists of zeros only (the empty vector included); in particular
  for \<open>[]\<close>, \<open>[]\<close> and for \<open>[0, 0]\<close>, \<open>[1, 1]\<close>. Otherwise it is the dot product
  divided by the product of the square roots of the squared norms, the three sums being
  accumulated in float64. The laws of float64 arithmetic used are the hypotheses.
\<close>

theorem cosineSimilarity_cases:
  assumes z: "zero_laws ops" and nz: "nonzero_laws ops pos"
  shows "(length a \<noteq> length b \<longrightarrow> cosineSimilarity ops a b = f64_zero ops) \<and>
         (list_all is_zero32 a \<or> list_all is_zero32 b \<longrightarrow>
            cosineSimilarity ops a b = f64_zero ops) \<and>
         cosineSimilarity ops [] [] = f64_zero ops \<and>
         cosineSimilarity ops [0, 0] [0x3F800000, 0x3F800000] = f64_zero ops \<and>
         (length a = length b \<and> \<not> list_all is_zero32 a \<and> \<not> list_all is_zero32 b \<longrightarrow>
            cosineSimilarity ops a b =
              f64_div ops (dot_product ops a b)
                (f64_mul ops (f64_sqrt ops (norm_sq ops a)) (f64_sqrt ops (norm_sq ops b))))"
proof -
  have zero: "cosineSimilarity ops u v = f64_zero ops"
    if "list_all is_zero32 u \<or> list_all is_zero32 v" for u v
  proof (cases "length u = length v")
    case False
    then show ?thesis by (simp add: cosineSimilarity_def)
  next
    case True
    have "f64_eq ops (norm_sq ops u) (f64_zero ops) \<or> f64_eq ops (norm_sq ops v) (f64_zero ops)"
      using that z norm_sq_zeros [OF z] unfolding zero_laws_def by metis
    then show ?thesis using True by (auto simp: cosineSimilarity_def cosine_loop_sums)
  qed
  have general: "cosineSimilarity ops a b =
              f64_div ops (dot_product ops a b)
                (f64_mul ops (f64_sqrt ops (norm_sq ops a)) (f64_sqrt ops (norm_sq ops b)))"
    if "length a = length b" "\<not> list_all is_zero32 a" "\<not> list_all is_zero32 b"
  proof -
    have "\<not> f64_eq ops (norm_sq ops a) (f64_zero ops)" "\<not> f64_eq ops (norm_sq ops b) (f64_zero ops)"
      using norm_sq_pos [OF nz z] that nz unfolding nonzero_laws_def by blast+
    then show ?thesis using that by (simp add: cosineSimilarity_def cosine_loop_sums)
  qed
  have "cosineSimilarity ops [] [] = f64_zero ops"
    by (rule zero) simp
  moreover have "cosineSimilarity ops [0, 0] [0x3F800000, 0x3F800000] = f64_zero ops"
    by (rule zero) (simp add: is_zero32_def)
  moreover have "length a \<noteq> length b \<longrightarrow> cosineSimilarity ops a b = f64_zero ops"
    by (simp add: cosineSimilarity_def)
  ultimately show ?thesis using zero [of a b] general by blast
qed

text \<open>
  The theorem in the exact arithmetic: vectors of lengths 1 and 2, the two degenerate
  pairs of the claim, and \<open>[1, 0]\<close> against itself, of similarity 1.
\<close>

theorem cosineSimilarity_cases_witness:
  "zero_laws exact_ops \<and> nonzero_laws exact_ops (\<lambda>s. 0 < s) \<and>
   cosineSimilarity exact_ops [0x3F800000] [0x3F800000, 0] = 0 \<and>
   cosineSimilarity exact_ops [] [] = 0 \<and>
   cosineSimilarity exact_ops [0, 0] [0x3F800000, 0x3F800000] = 0 \<and>
   cosineSimilarity exact_ops [0x3F800000, 0] [0x3F800000, 0] = 1"
proof -
  note c = cosineSimilarity_cases [OF zero_laws_exact nonzero_laws_exact]
  have z: "f64_zero exact_ops = 0" by (simp add: f64_zero_def exact_ops_def)
  have "cosineSimilarity exact_ops [0x3F800000] [0x3F800000, 0] = 0"
    using c [of "[0x3F800000]" "[0x3F800000, 0]"] z by simp
  moreover have "cosineSimilarity exact_ops [] [] = 0"
    using c [of "[]" "[]"] z by simp
  moreover have "cosineSimilarity exact_ops [0, 0] [0x3F800000, 0x3F800000] = 0"
    using c [of "[]" "[]"] z by simp
  moreover have "cosineSimilarity exact_ops [0x3F800000, 0] [0x3F800000, 0] =
      f64_div exact_ops (dot_product exact_ops [0x3F800000, 0] [0x3F800000, 0])
        (f64_mul exact_ops (f64_sqrt exact_ops (norm_sq exact_ops [0x3F800000, 0]))
           (f64_sqrt exact_ops (norm_sq exact_ops [0x3F800000, 0])))"
    using c [of "[0x3F800000, 0]" "[0x3F800000, 0]"] by (simp add: is_zero32_def)
  then have "cosineSimilarity exact_ops [0x3F800000, 0] [0x3F800000, 0] = 1"
    by (simp add: dot_product_def norm_sq_def exact_ops_def f64_zero_def
        f32_value_one f32_value_zero is_zero32_def)
  ultimately show ?thesis
    using zero_laws_exact nonzero_laws_exact by simp
qed

subsection \<open>C5: the stored form of an absent embedding\<close>

text \<open>
  Claim C5 says that a message without embedding and a message whose embedding is a
  vector of length zero are stored in distinguishable forms. They are not: the two calls
  below differ in \<^verbatim>\<open>Embedding\<close> only (\<^verbatim>\<open>nil\<close> against an allocated empty slice) and
  leave the same database, with NULL in the embedding column.
\<close>

theorem absent_and_empty_embedding_stored_alike:
  "Embedding (hello_msg\<lparr>Embedding := None\<rparr>) \<noteq> Embedding (hello_msg\<lparr>Embedding := Some []\<rparr>) \<and>
   SaveMessage 3 one_conv_db (hello_msg\<lparr>Embedding := None\<rparr>) =
   SaveMessage 3 one_conv_db (hello_msg\<lparr>Embedding := Some []\<rparr>) \<and>
   map m_embedding (messages (snd (SaveMessage 3 one_conv_db (hello_msg\<lparr>Embedding := Some []\<rparr>))))
     = [None]"
  by (simp add: SaveMessage_def one_conv_db_def hello_msg_def insert_message_def
      update_conversation_updated_at_def len_def)

text \<open>
  Claim C5, amended. For every message that \<^verbatim>\<open>SaveMessage\<close> saves: an embedding
  of length zero, absent or allocated, is stored as NULL; an embedding of positive length
  is stored as a blob of four bytes per element that decodes to the embedding, so it is
  distinguishable from an absent one.
\<close>

theorem SaveMessage_embedding_column:
  assumes "SaveMessage now db msg = (None, db')"
  shows "messages db' \<noteq> [] \<and>
         (len (Embedding msg) = 0 \<longrightarrow> m_embedding (last (messages db')) = None) \<and>
         (len (Embedding msg) > 0 \<longrightarrow>
            (\<exists>blob. m_embedding (last (messages db')) = Some blob \<and>
                    length blob = 4 * len (Embedding msg) \<and>
                    deserializeFloat32 blob = elems (Embedding msg)))"
  using SaveMessage_success [OF assms]
  by (auto simp: message_row_def deserialize_serialize length_serializeFloat32 len_def elems_def
      split: option.splits)

text \<open>
  The theorem at \<open>hello_msg\<close>, whose embedding has two elements.
\<close>

theorem SaveMessage_embedding_column_witness:
  "SaveMessage 3 one_conv_db hello_msg = (None, demo_db) \<and>
   len (Embedding hello_msg) = 2 \<and>
   map_option length (m_embedding (last (messages demo_db))) = Some 8 \<and>
   map_option deserializeFloat32 (m_embedding (last (messages demo_db)))
     = Some [0x3F800000, 0]"
proof -
  have s: "SaveMessage 3 one_conv_db hello_msg = (None, demo_db)"
    by (simp add: demo_db_def hello_msg_def SaveMessage_def one_conv_db_def
      insert_message_def update_conversation_updated_at_def len_def elems_def)
  have l: "len (Embedding hello_msg) = 2" by (simp add: hello_msg_def len_def)
  obtain blob where "m_embedding (last (messages demo_db)) = Some blob"
    "length blob = 4 * len (Embedding hello_msg)"
    "deserializeFloat32 blob = elems (Embedding hello_msg)"
    using SaveMessage_embedding_column [OF s] l by auto
  then show ?thesis using s l by (simp add: hello_msg_def elems_def)
qed

subsection \<open>C6: the order of results with equal similarity\<close>

text \<open>
  Claim C6 says that results with equal similarity keep the order of the scan. In
  \<open>tie_db\<close> the messages \<open>a\<close> and \<open>b\<close> both score 0 against the query \<open>[1, 0]\<close> and
  \<open>c\<close> scores 1; \<open>a\<close> is scanned before \<open>b\<close> and returned after it (the first pass
  of the sort swaps \<open>a\<close> with \<open>c\<close>, across \<open>b\<close>).
\<close>

theorem Search_ties_reordered:
  "map m_id (messages tie_db) = [''a'', ''b'', ''c''] \<and>
   map_sum id (map (\<lambda>r. (Message.ID (Message r), Similarity r)))
     (Search exact_ops scan_succeeds tie_db [0x3F800000, 0] 5)
   = Inr [(''c'', 1), (''b'', 0), (''a'', 0)]"
  apply (simp add: Search_def tie_db_def scan_results_def scan_succeeds_def deserialize_serialize
      scan_message_def cos_same cos_orth serializeFloat32_eq_Nil)
  apply (simp add: sort_outer.simps sort_inner.simps exact_ops_def)
  done

text \<open>
  Claim C6, amended. Whenever the scanned candidates are already in descending order
  of similarity (as when all of them score the same), \<^verbatim>\<open>Search\<close> with a limit that is
  not negative returns them in the order of the scan, cut at the limit. In any other case
  the order among results of equal similarity is not determined by the scan order.
\<close>

theorem Search_keeps_descending_scan_order:
  assumes "store_wf db" and "0 \<le> k"
    and "descending ops (map (candidate ops q) (filter (searchable scan_err) (messages db)))"
  shows "Search ops scan_err db q k =
           Inr (take (nat k)
                  (map (candidate ops q) (filter (searchable scan_err) (messages db))))"
  by (subst Search_nonneg [OF assms(2)], subst scan_results_candidates [OF assms(1)])
     (simp add: sort_outer_id [OF assms(3)])

text \<open>
  The theorem at \<open>tie2_db\<close>: two messages of equal similarity come back in scan
  order.
\<close>

theorem Search_keeps_descending_scan_order_witness:
  "store_wf tie2_db \<and> (0::int) \<le> 5 \<and>
   descending exact_ops
     (map (candidate exact_ops [0x3F800000, 0]) (filter (searchable scan_succeeds) (messages tie2_db))) \<and>
   map m_id (messages tie2_db) = [''a'', ''b''] \<and>
   map_sum id (map (\<lambda>r. (Message.ID (Message r), Similarity r)))
     (Search exact_ops scan_succeeds tie2_db [0x3F800000, 0] 5)
   = Inr [(''a'', 0), (''b'', 0)]"
proof -
  have "Search exact_ops scan_succeeds tie2_db [0x3F800000, 0] 5 =
      Inr (take (nat 5)
        (map (candidate exact_ops [0x3F800000, 0]) (filter (searchable scan_succeeds) (messages tie2_db))))"
    using Search_keeps_descending_scan_order [OF store_wf_tie2_db _ descending_tie2, of 5]
    by simp
  then have "map_sum id (map (\<lambda>r. (Message.ID (Message r), Similarity r)))
     (Search exact_ops scan_succeeds tie2_db [0x3F800000, 0] 5) = Inr [(''a'', 0), (''b'', 0)]"
    using candidates_tie2 by (simp add: take_map [symmetric] del: map_map)
  moreover have "map m_id (messages tie2_db) = [''a'', ''b'']"
    by (simp add: tie2_db_def tie_db_def)
  ultimately show ?thesis
    using store_wf_tie2_db descending_tie2 by simp
qed

subsection \<open>C7: GetLastConversation and ListConversations\<close>

text \<open>
  The specification's wording of \<^verbatim>\<open>getLastConversation\<close>: the first element of
  \<^verbatim>\<open>ListConversations(1)\<close>, fetched in full by \<^verbatim>\<open>GetConversation\<close>.
\<close>

definition GetLastConversation_spec ::
  "(time \<Rightarrow> 'k::linorder) \<Rightarrow> DB \<Rightarrow> Conversation option" where
  "GetLastConversation_spec stored db =
     (case ListConversations stored db 1 of
        [] \<Rightarrow> None
      | c # _ \<Rightarrow> GetConversation stored db (Conversation.ID c))"

text \<open>
  Claim C7. For every store, \<^verbatim>\<open>GetLastConversation\<close> returns what the specification's
  wording gives, and it returns no conversation exactly when \<^verbatim>\<open>ListConversations(1)\<close>
  is empty.
\<close>

theorem GetLastConversation_refines:
  "GetLastConversation stored db = GetLastConversation_spec stored db \<and>
   (GetLastConversation stored db = None \<longleftrightarrow> ListConversations stored db 1 = [])"
proof (cases "order_by_updated_at_desc stored (conversations db)")
  case Nil
  then show ?thesis
    by (simp add: GetLastConversation_def GetLastConversation_spec_def
        ListConversations_map sql_limit_def)
next
  case (Cons r rs)
  then have "r \<in> set (order_by_updated_at_desc stored (conversations db))" by simp
  then have "r \<in> set (conversations db)"
    by (simp add: order_by_updated_at_desc_def)
  then have "GetConversation stored db (c_id r) \<noteq> None"
    by (rule GetConversation_member)
  then show ?thesis using Cons
    by (simp add: GetLastConversation_def GetLastConversation_spec_def
        ListConversations_map sql_limit_def scan_conversation_def)
qed

text \<open>
  The theorem at a store of two conversations, the second updated last, and at the
  empty store.
\<close>

theorem GetLastConversation_refines_witness:
  "map Conversation.ID (ListConversations chronological two_conv_db 1) = [''c2''] \<and>
   map_option Conversation.ID (GetLastConversation chronological two_conv_db) = Some ''c2'' \<and>
   GetLastConversation chronological two_conv_db = GetConversation chronological two_conv_db ''c2'' \<and>
   ListConversations chronological empty_db 1 = [] \<and>
   GetLastConversation chronological empty_db = None"
proof -
  have l: "ListConversations chronological two_conv_db 1 =
      [\<lparr>Conversation.ID = ''c2'', Title = ''newer'', Conversation.CreatedAt = 3, UpdatedAt = 5,
        Messages = []\<rparr>]"
    by (simp add: ListConversations_def two_conv_db_def sql_limit_def
        order_by_updated_at_desc_def chronological_def scan_conversation_def)
  have "GetLastConversation chronological two_conv_db = GetConversation chronological two_conv_db ''c2''"
    using GetLastConversation_refines [of chronological two_conv_db] l
    by (simp add: GetLastConversation_spec_def)
  moreover have "map_option Conversation.ID (GetConversation chronological two_conv_db ''c2'') = Some ''c2''"
    by (simp add: GetConversation_def two_conv_db_def fold_scan_fields scan_conversation_def)
  moreover have "ListConversations chronological empty_db 1 = []"
    by (simp add: ListConversations_def empty_db_def sql_limit_def
        order_by_updated_at_desc_def)
  moreover have "GetLastConversation chronological empty_db = None"
    using GetLastConversation_refines [of chronological empty_db, THEN conjunct2] calculation(3)
    by simp
  ultimately show ?thesis using l by simp
qed

subsection \<open>C8: the search command when the embedding provider fails\<close>

text \<open>
  Claim C8. With a store in place, for every query text: if the embedding provider
  fails, \<^verbatim>\<open>searchMemory\<close> returns the message "Error generating embedding: ..." with
  the provider's error, the only call made is the one to the provider (\<^verbatim>\<open>Search\<close> is
  not called), and the store is as before.
\<close>

theorem searchMemory_embedding_unavailable:
  assumes "Embed to_float32 api_Embed query = Inl err"
  shows "searchMemory ops scan_err to_float32 api_Embed (Some db) query =
           (Inr (commandResultMsg (''Error generating embedding: '' @ Error err)),
            [Embed_called query], Some db)"
  using assms by (simp add: searchMemory_def)

text \<open>
  The theorem with a model server that refuses the connection.
\<close>

theorem searchMemory_embedding_unavailable_witness:
  "Embed (\<lambda>x. 0) server_down ''hello?'' =
     Inl (Errorf ''failed to generate embedding'' (Api ''connection refused'')) \<and>
   searchMemory exact_ops scan_succeeds (\<lambda>x. 0) server_down (Some recall_db) ''hello?'' =
     (Inr (commandResultMsg
        ''Error generating embedding: failed to generate embedding: connection refused''),
      [Embed_called ''hello?''], Some recall_db)"
proof -
  have e: "Embed (\<lambda>x. 0) server_down ''hello?'' =
     Inl (Errorf ''failed to generate embedding'' (Api ''connection refused''))"
    by (simp add: Embed_def server_down_def)
  show ?thesis
    using searchMemory_embedding_unavailable [OF e, of exact_ops scan_succeeds recall_db] e by simp
qed

subsection \<open>C9: what a successful SaveMessage changes\<close>

text \<open>
  Claim C9. For every message whose conversation exists, a \<^verbatim>\<open>SaveMessage\<close> that
  succeeds appends exactly one row, with the fields of the message (its embedding
  encoded), to the messages, which are otherwise as before; of the conversations it
  changes nothing but the last-update time of the conversation of the message, which
  becomes the current time: identity, title and creation time of every conversation
  and the last-update time of every other conversation are as before.
\<close>

theorem SaveMessage_effect:
  assumes "SaveMessage now db msg = (None, db')"
    and "ConversationID msg \<in> set (map c_id (conversations db))"
  shows "(\<exists>row. messages db' = messages db @ [row] \<and>
            m_id row = Message.ID msg \<and> m_conversation_id row = ConversationID msg \<and>
            m_role row = Role msg \<and> m_content row = Content msg \<and>
            m_created_at row = Message.CreatedAt msg \<and>
            deserializeFloat32 (elems (m_embedding row)) = elems (Embedding msg)) \<and>
         GetMessageCount db' = GetMessageCount db + 1 \<and>
         length (conversations db') = length (conversations db) \<and>
         (\<forall>k < length (conversations db).
            c_id (conversations db' ! k) = c_id (conversations db ! k) \<and>
            c_title (conversations db' ! k) = c_title (conversations db ! k) \<and>
            c_created_at (conversations db' ! k) = c_created_at (conversations db ! k) \<and>
            c_updated_at (conversations db' ! k) =
              (if c_id (conversations db ! k) = ConversationID msg then now
               else c_updated_at (conversations db ! k))) \<and>
         (\<exists>k < length (conversations db).
            c_id (conversations db ! k) = ConversationID msg \<and>
            c_updated_at (conversations db' ! k) = now)"
proof -
  note s = SaveMessage_success [OF assms(1)]
  obtain k where k: "k < length (conversations db)"
      "c_id (conversations db ! k) = ConversationID msg"
    using assms(2) by (auto simp: in_set_conv_nth)
  have "c_updated_at (conversations db' ! k) = now"
    using s k by simp
  then have upd: "\<exists>k < length (conversations db).
            c_id (conversations db ! k) = ConversationID msg \<and>
            c_updated_at (conversations db' ! k) = now"
    using k by blast
  have "deserializeFloat32 (elems (m_embedding (message_row msg))) = elems (Embedding msg)"
    by (auto simp: message_row_def elems_def len_def deserialize_serialize
        deserializeFloat32_Nil split: option.splits)
  then have row: "\<exists>row. messages db' = messages db @ [row] \<and>
            m_id row = Message.ID msg \<and> m_conversation_id row = ConversationID msg \<and>
            m_role row = Role msg \<and> m_content row = Content msg \<and>
            m_created_at row = Message.CreatedAt msg \<and>
            deserializeFloat32 (elems (m_embedding row)) = elems (Embedding msg)"
    using s by (intro exI [of _ "message_row msg"]) (simp add: message_row_def)
  show ?thesis using s upd row by (simp add: GetMessageCount_def)
qed

text \<open>
  The theorem at the store of two conversations: a third message, for \<open>c1\<close>, saved at
  time 9.
\<close>

theorem SaveMessage_effect_witness:
  "fst (SaveMessage 9 two_conv_db third_msg) = None \<and>
   ConversationID third_msg \<in> set (map c_id (conversations two_conv_db)) \<and>
   map m_id (messages (snd (SaveMessage 9 two_conv_db third_msg))) = [''m1'', ''m2'', ''m3''] \<and>
   GetMessageCount (snd (SaveMessage 9 two_conv_db third_msg)) = 3 \<and>
   map c_id (conversations (snd (SaveMessage 9 two_conv_db third_msg))) = [''c1'', ''c2''] \<and>
   map c_updated_at (conversations two_conv_db) = [2, 5] \<and>
   map c_updated_at (conversations (snd (SaveMessage 9 two_conv_db third_msg))) = [9, 5]"
proof -
  define db' where "db' = snd (SaveMessage 9 two_conv_db third_msg)"
  have s: "SaveMessage 9 two_conv_db third_msg = (None, db')"
    by (simp add: db'_def SaveMessage_def two_conv_db_def third_msg_def insert_message_def len_def)
  have f: "fst (SaveMessage 9 two_conv_db third_msg) = None"
    using s by simp
  have c: "ConversationID third_msg \<in> set (map c_id (conversations two_conv_db))"
    by (simp add: two_conv_db_def third_msg_def)
  note e = SaveMessage_effect [OF s c]
  have len: "length (conversations two_conv_db) = 2" by (simp add: two_conv_db_def)
  have n: "GetMessageCount db' = 3"
    using e by (simp add: GetMessageCount_def two_conv_db_def)
  obtain row where row: "messages db' = messages two_conv_db @ [row]" "m_id row = ''m3''"
    using e by (auto simp: third_msg_def)
  have l2: "length (conversations db') = 2" using e len by simp
  have k0: "c_id (conversations db' ! 0) = ''c1'' \<and> c_updated_at (conversations db' ! 0) = 9"
    using e len by (simp add: two_conv_db_def third_msg_def)
  have k1: "c_id (conversations db' ! 1) = ''c2'' \<and> c_updated_at (conversations db' ! 1) = 5"
    using e len by (simp add: two_conv_db_def third_msg_def)
  have two: "xs = [xs ! 0, xs ! 1]" if "length xs = 2" for xs :: "conversations_row list"
    using that by (cases xs; cases "tl xs") auto
  have "map c_id (conversations db') = [''c1'', ''c2'']"
       "map c_updated_at (conversations db') = [9, 5]"
    using two [OF l2] k0 k1 by (metis list.simps(8,9))+
  moreover have "map m_id (messages db') = [''m1'', ''m2'', ''m3'']"
    using row by (simp add: two_conv_db_def)
  moreover have "map c_updated_at (conversations two_conv_db) = [2, 5]"
    by (simp add: two_conv_db_def)
  ultimately show ?thesis using f c n unfolding db'_def by simp
qed

subsection \<open>C10: retrieved conversations carry no embeddings\<close>

text \<open>
  Claim C10. Every message of a conversation returned by \<^verbatim>\<open>GetConversation\<close> or by
  \<^verbatim>\<open>GetLastConversation\<close> has an empty (\<^verbatim>\<open>nil\<close>) \<^verbatim>\<open>Embedding\<close>, whatever was stored
  with it.
\<close>

theorem retrieval_has_no_embedding:
  "(GetConversation stored db i = Some conv \<longrightarrow> (\<forall>m \<in> set (Messages conv). Embedding m = None)) \<and>
   (GetLastConversation stored db = Some conv \<longrightarrow> (\<forall>m \<in> set (Messages conv). Embedding m = None))"
proof (intro conjI impI)
  assume "GetConversation stored db i = Some conv"
  then show "\<forall>m \<in> set (Messages conv). Embedding m = None"
    by (auto simp: GetConversation_Some scan_message_def)
next
  assume "GetLastConversation stored db = Some conv"
  then obtain j where "GetConversation stored db j = Some conv"
    using GetLastConversation_Some by blast
  then show "\<forall>m \<in> set (Messages conv). Embedding m = None"
    by (auto simp: GetConversation_Some scan_message_def)
qed

text \<open>
  The theorem at \<open>demo_db\<close>, whose one message was saved with an embedding.
\<close>

theorem retrieval_has_no_embedding_witness:
  "map m_embedding (messages demo_db) = [Some (serializeFloat32 [0x3F800000, 0])] \<and>
   GetConversation chronological demo_db ''c1'' = Some demo_conv \<and>
   GetLastConversation chronological demo_db = Some demo_conv \<and>
   Messages demo_conv \<noteq> [] \<and>
   list_all (\<lambda>m. Embedding m = None) (Messages demo_conv)"
proof -
  have "\<forall>m \<in> set (Messages demo_conv). Embedding m = None"
    using retrieval_has_no_embedding [of chronological demo_db "''c1''" demo_conv]
    by (simp add: GetConversation_demo)
  then have "list_all (\<lambda>m. Embedding m = None) (Messages demo_conv)"
    by (simp add: list_all_iff)
  moreover have "Messages demo_conv \<noteq> []"
    by (simp add: demo_conv_def)
  moreover have "map m_embedding (messages demo_db) = [Some (serializeFloat32 [0x3F800000, 0])]"
    by (simp add: demo_db_def)
  ultimately show ?thesis
    by (simp add: GetConversation_demo GetLastConversation_demo)
qed

end
